theory Spec2Isabelle
  imports Complex_Main "HOL-Library.Word"
begin

section \<open>WeatherCast: the state container and the data access layer\<close>

text \<open>
  A shallow embedding of \<^verbatim>\<open>src/lib/store.ts\<close> (the Zustand store) and of the
  request cache of \<^verbatim>\<open>api.ts\<close> (class \<^verbatim>\<open>WeatherAPI\<close>).

  Conventions of the model:
  \<^item> a JavaScript string is its sequence of UTF-16 code units, so \<^verbatim>\<open>length\<close> counts what
    \<^verbatim>\<open>.length\<close> counts; \<open>utf16\<close> embeds an ASCII literal;
  \<^item> a JavaScript number that is a coordinate is an IEEE 754 double (\<open>double\<close> below), with
    its subtraction rounded to nearest, its absolute value and its comparison; a timestamp
    (\<^verbatim>\<open>Date.now()\<close>) is an \<open>int\<close> of milliseconds;
  \<^item> the provider's JSON payloads are opaque and are carried as their text.
\<close>

subsection \<open>Strings\<close>

type_synonym js_string = "16 word list"

definition utf16 :: "string \<Rightarrow> js_string" where
  "utf16 cs = map of_char cs"

type_synonym json = js_string

subsection \<open>Numbers\<close>

text \<open>
  A JavaScript number is an IEEE 754 binary64 value. \<open>Finite s m e\<close> is the number
  \<^verbatim>\<open>(-1)^s * m * 2^e\<close>, where \<open>m\<close> is the significand as a whole number (below \<^verbatim>\<open>2^53\<close>) and
  \<open>e\<close> the exponent of its last bit (from \<open>-1074\<close> to \<open>971\<close>); \<open>Finite s 0 e\<close> is a zero of
  sign \<open>s\<close>. Several terms denote the same number (\<open>Finite s 2 0\<close> and \<open>Finite s 1 1\<close>);
  the operations below depend on the number only, and the code never tests two coordinates
  for equality. \<open>valueOf\<close> is the real number a finite double stands for.
\<close>

datatype double = NaN | Infinity bool | Finite bool nat int

definition valueOf :: "double \<Rightarrow> real" where
  "valueOf d =
     (case d of
        Finite s m e \<Rightarrow> (if s then - 1 else 1) * real m * 2 powi e
      | _ \<Rightarrow> 0)"

definition isFinite :: "double \<Rightarrow> bool" where
  "isFinite d = (case d of Finite s m e \<Rightarrow> True | _ \<Rightarrow> False)"

text \<open>
  \<open>aligned e0 s m e\<close> is the same number counted in units of \<^verbatim>\<open>2^e0\<close>, for \<open>e0\<close> not above
  \<open>e\<close>: a whole number.
\<close>

definition aligned :: "int \<Rightarrow> bool \<Rightarrow> nat \<Rightarrow> int \<Rightarrow> int" where
  "aligned e0 s m e = (if s then - 1 else 1) * int m * 2 ^ nat (e - e0)"

text \<open>
  Rounding to nearest, ties to even, of the whole number \<open>n\<close> of units \<^verbatim>\<open>2^e0\<close>:
  \<open>shift53 n\<close> is the number of low bits that do not fit into 53, \<open>roundedSignificand\<close>
  drops them and rounds, and \<open>roundTo\<close> gives the double, or the infinity when the result
  reaches \<^verbatim>\<open>2^1024\<close>. The difference of two doubles is a whole number of units
  \<^verbatim>\<open>2^-1074\<close>, so no result is rounded below the subnormal spacing.
\<close>

fun shift53 :: "nat \<Rightarrow> nat" where
  "shift53 n = (if n < 2 ^ 53 then 0 else Suc (shift53 (n div 2)))"

declare shift53.simps [simp del]

definition roundedSignificand :: "nat \<Rightarrow> nat" where
  "roundedSignificand n =
     (let k = shift53 n;
          q = n div 2 ^ k;
          r = n mod 2 ^ k
      in if 2 ^ k < 2 * r \<or> (2 * r = 2 ^ k \<and> odd q) then q + 1 else q)"

definition roundTo :: "bool \<Rightarrow> nat \<Rightarrow> int \<Rightarrow> double" where
  "roundTo s n e0 =
     (let e = e0 + int (shift53 n);
          q = roundedSignificand n
      in if 0 \<le> e \<and> 2 ^ 1024 \<le> int q * 2 ^ nat e then Infinity s else Finite s q e)"

text \<open>\<^verbatim>\<open>a - b\<close>, \<^verbatim>\<open>Math.abs(a)\<close> and \<^verbatim>\<open>a > b\<close> on doubles.\<close>

fun sub64 :: "double \<Rightarrow> double \<Rightarrow> double" where
  "sub64 NaN b = NaN"
| "sub64 a NaN = NaN"
| "sub64 (Infinity s) (Infinity t) = (if s = t then NaN else Infinity s)"
| "sub64 (Infinity s) (Finite t n f) = Infinity s"
| "sub64 (Finite s m e) (Infinity t) = Infinity (\<not> t)"
| "sub64 (Finite s m e) (Finite t n f) =
     (let e0 = min e f;
          d = aligned e0 s m e - aligned e0 t n f
      in if d = 0 then Finite (s \<and> \<not> t) 0 e0
         else roundTo (d < 0) (nat \<bar>d\<bar>) e0)"

fun abs64 :: "double \<Rightarrow> double" where
  "abs64 NaN = NaN"
| "abs64 (Infinity s) = Infinity False"
| "abs64 (Finite s m e) = Finite False m e"

fun gt64 :: "double \<Rightarrow> double \<Rightarrow> bool" where
  "gt64 NaN b = False"
| "gt64 a NaN = False"
| "gt64 (Infinity s) (Infinity t) = (\<not> s \<and> t)"
| "gt64 (Infinity s) (Finite t n f) = (\<not> s)"
| "gt64 (Finite s m e) (Infinity t) = t"
| "gt64 (Finite s m e) (Finite t n f) =
     (let e0 = min e f in aligned e0 t n f < aligned e0 s m e)"

text \<open>
  The literal \<^verbatim>\<open>0.000001\<close> is the double \<^verbatim>\<open>0x1.0c6f7a0b5ed8dp-20\<close>, which is
  \<^verbatim>\<open>4722366482869645 * 2^-72\<close> and lies a little below \<open>1/1000000\<close>.
\<close>

definition tolerance :: double where
  "tolerance = Finite False 4722366482869645 (- 72)"


subsection \<open>The value types of \<^verbatim>\<open>@/types/weather\<close>\<close>

record Coordinates =
  lat :: double
  lon :: double

record City = Coordinates +
  name :: js_string
  country :: js_string

record WeatherData =
  currentWeather :: json
  forecast :: json
  airPollution :: json

subsection \<open>The store (\<^verbatim>\<open>src/lib/store.ts\<close>)\<close>

datatype unit_system = metric | imperial

record WeatherState =
  coordinates :: Coordinates
  weatherData :: "WeatherData option"
  unit :: unit_system
  isLoading :: bool
  error :: "js_string option"
  showLocationDialog :: bool
  isManualSelection :: bool
  geolocationEnabled :: bool
  hasInitialLoad :: bool
  searchQuery :: js_string
  citySuggestions :: "City list"
  isSearching :: bool

text \<open>
  \<^verbatim>\<open>DEFAULT_COORDINATES\<close> is imported from \<^verbatim>\<open>@/constants\<close>, which is not among the
  sources; it is the parameter \<open>dc\<close> of every definition that reads it.
\<close>

definition initialState :: "Coordinates \<Rightarrow> WeatherState" where
  "initialState dc =
     \<lparr> coordinates = dc,
       weatherData = None,
       unit = metric,
       isLoading = False,
       error = None,
       showLocationDialog = True,
       isManualSelection = False,
       geolocationEnabled = False,
       hasInitialLoad = False,
       searchQuery = [],
       citySuggestions = [],
       isSearching = False \<rparr>"

text \<open>The simple setters: \<^verbatim>\<open>set({ field: value })\<close> merges one field into the state.\<close>

definition setCoordinates :: "Coordinates \<Rightarrow> WeatherState \<Rightarrow> WeatherState" where
  "setCoordinates coords s = s\<lparr>coordinates := coords\<rparr>"

definition setWeatherData :: "WeatherData option \<Rightarrow> WeatherState \<Rightarrow> WeatherState" where
  "setWeatherData d s = s\<lparr>weatherData := d\<rparr>"

definition setLoading :: "bool \<Rightarrow> WeatherState \<Rightarrow> WeatherState" where
  "setLoading loading s = s\<lparr>isLoading := loading\<rparr>"

definition setError :: "js_string option \<Rightarrow> WeatherState \<Rightarrow> WeatherState" where
  "setError e s = s\<lparr>error := e\<rparr>"

definition setLocationDialog :: "bool \<Rightarrow> WeatherState \<Rightarrow> WeatherState" where
  "setLocationDialog show s = s\<lparr>showLocationDialog := show\<rparr>"

definition setManualSelection :: "bool \<Rightarrow> WeatherState \<Rightarrow> WeatherState" where
  "setManualSelection manual s = s\<lparr>isManualSelection := manual\<rparr>"

definition setGeolocationEnabled :: "bool \<Rightarrow> WeatherState \<Rightarrow> WeatherState" where
  "setGeolocationEnabled enabled s = s\<lparr>geolocationEnabled := enabled\<rparr>"

definition setInitialLoad :: "bool \<Rightarrow> WeatherState \<Rightarrow> WeatherState" where
  "setInitialLoad loaded s = s\<lparr>hasInitialLoad := loaded\<rparr>"

definition setSearchQuery :: "js_string \<Rightarrow> WeatherState \<Rightarrow> WeatherState" where
  "setSearchQuery q s = s\<lparr>searchQuery := q\<rparr>"

definition setCitySuggestions :: "City list \<Rightarrow> WeatherState \<Rightarrow> WeatherState" where
  "setCitySuggestions suggestions s = s\<lparr>citySuggestions := suggestions\<rparr>"

definition setSearching :: "bool \<Rightarrow> WeatherState \<Rightarrow> WeatherState" where
  "setSearching searching s = s\<lparr>isSearching := searching\<rparr>"

text \<open>
  \<^verbatim>\<open>updateLocation\<close>: the state is written only when
  \<^verbatim>\<open>Math.abs(current.lat - lat) > 0.000001 || Math.abs(current.lon - lon) > 0.000001\<close>;
  otherwise \<^verbatim>\<open>set\<close> is not called at all.
\<close>

definition updateLocation :: "double \<Rightarrow> double \<Rightarrow> WeatherState \<Rightarrow> WeatherState" where
  "updateLocation la lo s =
     (let newCoords = \<lparr> lat = la, lon = lo \<rparr>;
          current = coordinates s
      in if gt64 (abs64 (sub64 (lat current) la)) tolerance
            \<or> gt64 (abs64 (sub64 (lon current) lo)) tolerance
         then s\<lparr> coordinates := newCoords,
                 isManualSelection := True,
                 geolocationEnabled := False,
                 hasInitialLoad := True,
                 error := None \<rparr>
         else s)"

definition triggerCurrentLocation :: "WeatherState \<Rightarrow> WeatherState" where
  "triggerCurrentLocation s =
     s\<lparr> isManualSelection := False,
        geolocationEnabled := True,
        hasInitialLoad := True,
        searchQuery := [],
        citySuggestions := [],
        error := None \<rparr>"

definition handleLocationPermission :: "Coordinates \<Rightarrow> bool \<Rightarrow> WeatherState \<Rightarrow> WeatherState" where
  "handleLocationPermission dc allow s =
     s\<lparr> showLocationDialog := False,
        geolocationEnabled := allow,
        isManualSelection := \<not> allow,
        hasInitialLoad := True,
        coordinates := (if allow then coordinates s else dc) \<rparr>"

text \<open>\<^verbatim>\<open>reset\<close> merges \<^verbatim>\<open>initialState\<close>, which names every data field of the state.\<close>

definition reset :: "Coordinates \<Rightarrow> WeatherState \<Rightarrow> WeatherState" where
  "reset dc s = initialState dc"

text \<open>The exposed actions, and a session as the list of the actions taken.\<close>

datatype action =
    SetCoordinates Coordinates
  | SetWeatherData "WeatherData option"
  | SetLoading bool
  | SetError "js_string option"
  | SetLocationDialog bool
  | SetManualSelection bool
  | SetGeolocationEnabled bool
  | SetInitialLoad bool
  | SetSearchQuery js_string
  | SetCitySuggestions "City list"
  | SetSearching bool
  | UpdateLocation double double
  | TriggerCurrentLocation
  | HandleLocationPermission bool
  | Reset

fun dispatch :: "Coordinates \<Rightarrow> WeatherState \<Rightarrow> action \<Rightarrow> WeatherState" where
  "dispatch dc s (SetCoordinates c) = setCoordinates c s"
| "dispatch dc s (SetWeatherData d) = setWeatherData d s"
| "dispatch dc s (SetLoading b) = setLoading b s"
| "dispatch dc s (SetError e) = setError e s"
| "dispatch dc s (SetLocationDialog b) = setLocationDialog b s"
| "dispatch dc s (SetManualSelection b) = setManualSelection b s"
| "dispatch dc s (SetGeolocationEnabled b) = setGeolocationEnabled b s"
| "dispatch dc s (SetInitialLoad b) = setInitialLoad b s"
| "dispatch dc s (SetSearchQuery q) = setSearchQuery q s"
| "dispatch dc s (SetCitySuggestions cs) = setCitySuggestions cs s"
| "dispatch dc s (SetSearching b) = setSearching b s"
| "dispatch dc s (UpdateLocation la lo) = updateLocation la lo s"
| "dispatch dc s TriggerCurrentLocation = triggerCurrentLocation s"
| "dispatch dc s (HandleLocationPermission allow) = handleLocationPermission dc allow s"
| "dispatch dc s Reset = reset dc s"

definition session :: "Coordinates \<Rightarrow> action list \<Rightarrow> WeatherState" where
  "session dc acts = foldl (dispatch dc) (initialState dc) acts"


subsection \<open>The data access layer (\<^verbatim>\<open>api.ts\<close>): errors\<close>

text \<open>
  What \<^verbatim>\<open>handleError\<close> observes of a thrown value: whether it is an \<^verbatim>\<open>Error\<close> instance,
  its \<^verbatim>\<open>name\<close> and \<^verbatim>\<open>message\<close>, whether \<^verbatim>\<open>axios.isAxiosError\<close> accepts it, and
  \<^verbatim>\<open>error.response?.data?.message\<close> (\<open>None\<close> when the chain yields \<^verbatim>\<open>undefined\<close>).
\<close>

record js_error =
  instanceofError :: bool
  errorName :: js_string
  errorMessage :: js_string
  isAxiosError :: bool
  responseMessage :: "js_string option"

text \<open>\<^verbatim>\<open>new Error(message)\<close>.\<close>

definition newError :: "js_string \<Rightarrow> js_error" where
  "newError m =
     \<lparr> instanceofError = True,
       errorName = utf16 ''Error'',
       errorMessage = m,
       isAxiosError = False,
       responseMessage = None \<rparr>"

text \<open>
  The three return statements of \<^verbatim>\<open>handleError\<close> are the three kinds of the error
  taxonomy; the model returns the kind of the statement reached together with the value.
  \<^verbatim>\<open>a || b\<close> on strings takes \<^verbatim>\<open>b\<close> when \<^verbatim>\<open>a\<close> is \<^verbatim>\<open>undefined\<close> or empty.
\<close>

datatype error_kind = Cancelled | TransportFailure | Unexpected

definition handleError :: "js_error \<Rightarrow> error_kind \<times> js_error" where
  "handleError err =
     (if instanceofError err \<and> errorName err = utf16 ''AbortError''
      then (Cancelled, err)
      else if isAxiosError err
      then (let message =
                  (case responseMessage err of
                     Some m \<Rightarrow>
                       if m \<noteq> [] then m
                       else if errorMessage err \<noteq> [] then errorMessage err
                       else utf16 ''API request failed''
                   | None \<Rightarrow>
                       if errorMessage err \<noteq> [] then errorMessage err
                       else utf16 ''API request failed'')
            in (TransportFailure, newError message))
      else (Unexpected, newError (utf16 ''An unexpected error occurred'')))"

subsection \<open>The data access layer: caches, pending tables and promises\<close>

definition CACHE_DURATION :: int where
  "CACHE_DURATION = 5 * 60 * 1000"

text \<open>
  The pending tables hold \<^verbatim>\<open>Promise\<close> objects, and the same object is handed to every
  caller that joins: promises live in a store, addressed by a number, and the tables hold
  addresses. \<open>weatherInFlight\<close> and \<open>cityInFlight\<close> list the network transactions that
  have been issued and have not settled, each with the cache key that its \<^verbatim>\<open>.then\<close>
  callback captured. One weather transaction is the \<^verbatim>\<open>Promise.all\<close> of the three GETs.
\<close>

datatype 'a promise = Pending | Fulfilled 'a | Rejected js_error

record api_state =
  weatherCache :: "js_string \<rightharpoonup> (WeatherData \<times> int)"
  cityCache :: "js_string \<rightharpoonup> (City list \<times> int)"
  pendingWeatherRequests :: "js_string \<rightharpoonup> nat"
  pendingCityRequests :: "js_string \<rightharpoonup> nat"
  weatherPromises :: "nat \<rightharpoonup> WeatherData promise"
  cityPromises :: "nat \<rightharpoonup> City list promise"
  weatherInFlight :: "(nat \<times> js_string) list"
  cityInFlight :: "(nat \<times> js_string) list"
  nextPromise :: nat

definition emptyApi :: api_state where
  "emptyApi =
     \<lparr> weatherCache = Map.empty,
       cityCache = Map.empty,
       pendingWeatherRequests = Map.empty,
       pendingCityRequests = Map.empty,
       weatherPromises = Map.empty,
       cityPromises = Map.empty,
       weatherInFlight = [],
       cityInFlight = [],
       nextPromise = 0 \<rparr>"

text \<open>
  \<^verbatim>\<open>cached && Date.now() - cached.timestamp < CACHE_DURATION\<close>, giving \<^verbatim>\<open>cached.data\<close>.
\<close>

definition cacheHit :: "('a \<times> int) option \<Rightarrow> int \<Rightarrow> 'a option" where
  "cacheHit cached now =
     (case cached of
        None \<Rightarrow> None
      | Some (d, timestamp) \<Rightarrow> if now - timestamp < CACHE_DURATION then Some d else None)"

text \<open>
  What a call hands back: a value at once (\<open>Returned\<close>), the promise found in the pending
  table as it is (\<open>Joined\<close>), or the promise the call created and awaits inside its
  \<^verbatim>\<open>try\<close>/\<^verbatim>\<open>catch\<close> (\<open>Created\<close>).
\<close>

datatype 'a reply = Returned 'a | Joined nat | Created nat

text \<open>
  \<^verbatim>\<open>fetchWeatherData(lat, lon, signal)\<close> at time \<open>now\<close>. The arguments \<open>la\<close> and \<open>lo\<close>
  are the strings that \<^verbatim>\<open>${lat}\<close> and \<^verbatim>\<open>${lon}\<close> produce, so \<open>weatherKey\<close> is the template
  \<^verbatim>\<open>`weather-${lat}-${lon}`\<close>. The signal is handed to axios by the call that
  creates the request and decides only how the transaction settles; a call that is answered
  from the cache or joins a pending promise does not use its signal.
\<close>

definition weatherKey :: "js_string \<Rightarrow> js_string \<Rightarrow> js_string" where
  "weatherKey la lo = utf16 ''weather-'' @ la @ utf16 ''-'' @ lo"

definition fetchWeatherData ::
  "js_string \<Rightarrow> js_string \<Rightarrow> int \<Rightarrow> api_state \<Rightarrow> WeatherData reply \<times> api_state" where
  "fetchWeatherData la lo now s =
     (let cacheKey = weatherKey la lo
      in case cacheHit (weatherCache s cacheKey) now of
           Some d \<Rightarrow> (Returned d, s)
         | None \<Rightarrow>
             (case pendingWeatherRequests s cacheKey of
                Some p \<Rightarrow> (Joined p, s)
              | None \<Rightarrow>
                  (let request = nextPromise s
                   in (Created request,
                       s\<lparr> weatherPromises := (weatherPromises s)(request \<mapsto> Pending),
                          weatherInFlight := weatherInFlight s @ [(request, cacheKey)],
                          pendingWeatherRequests :=
                            (pendingWeatherRequests s)(cacheKey \<mapsto> request),
                          nextPromise := Suc request \<rparr>))))"

text \<open>
  The transaction of \<open>request\<close> settles at time \<open>now\<close>: \<open>Inr\<close> with the three response
  bodies when all three GETs succeeded, \<open>Inl\<close> with the error of the first GET to fail.
  On success the \<^verbatim>\<open>.then\<close> callback writes the cache and the promise is fulfilled. On
  failure the promise is rejected and the \<^verbatim>\<open>catch\<close> block of the call that created it
  deletes the pending entry of its key. These reactions run one after the other when the
  response arrives, with no other call in between, and are one step of the model. A
  settlement for a request that is not in flight does nothing.
\<close>

definition settleWeather ::
  "nat \<Rightarrow> js_error + (json \<times> json \<times> json) \<Rightarrow> int \<Rightarrow> api_state \<Rightarrow> api_state" where
  "settleWeather request outcome now s =
     (case map_of (weatherInFlight s) request of
        None \<Rightarrow> s
      | Some cacheKey \<Rightarrow>
          (let rest = filter (\<lambda>t. fst t \<noteq> request) (weatherInFlight s)
           in case outcome of
                Inr (cw, fc, ap) \<Rightarrow>
                  (let data = \<lparr> currentWeather = cw, forecast = fc, airPollution = ap \<rparr>
                   in s\<lparr> weatherInFlight := rest,
                         weatherCache := (weatherCache s)(cacheKey \<mapsto> (data, now)),
                         weatherPromises := (weatherPromises s)(request \<mapsto> Fulfilled data) \<rparr>)
              | Inl err \<Rightarrow>
                  s\<lparr> weatherInFlight := rest,
                     weatherPromises := (weatherPromises s)(request \<mapsto> Rejected err),
                     pendingWeatherRequests := (pendingWeatherRequests s)(cacheKey := None) \<rparr>))"

text \<open>
  \<^verbatim>\<open>String.prototype.trim\<close> strips the WhiteSpace and LineTerminator code points of
  ECMAScript from both ends.
\<close>

definition isWhiteSpace :: "16 word \<Rightarrow> bool" where
  "isWhiteSpace c =
     (c \<in> {0x09, 0x0A, 0x0B, 0x0C, 0x0D, 0x20, 0xA0, 0x1680, 0x2028, 0x2029, 0x202F,
            0x205F, 0x3000, 0xFEFF}
      \<or> (0x2000 \<le> c \<and> c \<le> 0x200A))"

definition trim :: "js_string \<Rightarrow> js_string" where
  "trim q = rev (dropWhile isWhiteSpace (rev (dropWhile isWhiteSpace q)))"

text \<open>One entry of \<^verbatim>\<open>response.data.list\<close> of the \<^verbatim>\<open>/find\<close> call.\<close>

record find_entry =
  entry_name :: js_string
  sys_country :: js_string
  coord_lat :: double
  coord_lon :: double

definition toCity :: "find_entry \<Rightarrow> City" where
  "toCity city =
     \<lparr> lat = coord_lat city, lon = coord_lon city,
       name = entry_name city, country = sys_country city \<rparr>"

definition cityKey :: "js_string \<Rightarrow> js_string" where
  "cityKey query = utf16 ''cities-'' @ query"

definition searchCities :: "js_string \<Rightarrow> int \<Rightarrow> api_state \<Rightarrow> City list reply \<times> api_state" where
  "searchCities query now s =
     (if query = [] \<or> length (trim query) < 3 then (Returned [], s)
      else
        (let cacheKey = cityKey query
         in case cacheHit (cityCache s cacheKey) now of
              Some d \<Rightarrow> (Returned d, s)
            | None \<Rightarrow>
                (case pendingCityRequests s cacheKey of
                   Some p \<Rightarrow> (Joined p, s)
                 | None \<Rightarrow>
                     (let request = nextPromise s
                      in (Created request,
                          s\<lparr> cityPromises := (cityPromises s)(request \<mapsto> Pending),
                             cityInFlight := cityInFlight s @ [(request, cacheKey)],
                             pendingCityRequests :=
                               (pendingCityRequests s)(cacheKey \<mapsto> request),
                             nextPromise := Suc request \<rparr>)))))"

text \<open>
  The \<^verbatim>\<open>/find\<close> call of \<open>request\<close> settles: \<open>Inr\<close> with the list of the response, \<open>Inl\<close>
  with the error the promise is rejected with (the GET failed, or the callback threw on a
  payload that has no such list).
\<close>

definition settleCity ::
  "nat \<Rightarrow> js_error + find_entry list \<Rightarrow> int \<Rightarrow> api_state \<Rightarrow> api_state" where
  "settleCity request outcome now s =
     (case map_of (cityInFlight s) request of
        None \<Rightarrow> s
      | Some cacheKey \<Rightarrow>
          (let rest = filter (\<lambda>t. fst t \<noteq> request) (cityInFlight s)
           in case outcome of
                Inr entries \<Rightarrow>
                  (let cities = map toCity entries
                   in s\<lparr> cityInFlight := rest,
                         cityCache := (cityCache s)(cacheKey \<mapsto> (cities, now)),
                         cityPromises := (cityPromises s)(request \<mapsto> Fulfilled cities) \<rparr>)
              | Inl err \<Rightarrow>
                  s\<lparr> cityInFlight := rest,
                     cityPromises := (cityPromises s)(request \<mapsto> Rejected err),
                     pendingCityRequests := (pendingCityRequests s)(cacheKey := None) \<rparr>))"

text \<open>
  What a caller's own promise settles with, once the promise behind its reply has settled
  (\<open>None\<close> before that). A caller that joined holds the request promise itself and sees
  its rejection as it is; the caller that created it rethrows through \<^verbatim>\<open>handleError\<close>.
\<close>

definition delivered :: "(nat \<rightharpoonup> 'a promise) \<Rightarrow> 'a reply \<Rightarrow> (js_error + 'a) option" where
  "delivered promises r =
     (case r of
        Returned d \<Rightarrow> Some (Inr d)
      | Joined p \<Rightarrow>
          (case promises p of
             Some (Fulfilled d) \<Rightarrow> Some (Inr d)
           | Some (Rejected err) \<Rightarrow> Some (Inl err)
           | _ \<Rightarrow> None)
      | Created p \<Rightarrow>
          (case promises p of
             Some (Fulfilled d) \<Rightarrow> Some (Inr d)
           | Some (Rejected err) \<Rightarrow> Some (Inl (snd (handleError err)))
           | _ \<Rightarrow> None))"

text \<open>
  Cache administration. \<^verbatim>\<open>getCacheStats\<close> only reads the two caches and is left out.
\<close>

definition clearCache :: "api_state \<Rightarrow> api_state" where
  "clearCache s =
     s\<lparr> weatherCache := Map.empty,
        cityCache := Map.empty,
        pendingWeatherRequests := Map.empty,
        pendingCityRequests := Map.empty \<rparr>"

fun includes_str :: "js_string \<Rightarrow> js_string \<Rightarrow> bool" where
  "includes_str [] pat = (pat = [])"
| "includes_str (c # cs) pat = (take (length pat) (c # cs) = pat \<or> includes_str cs pat)"

definition clearCacheByPattern :: "js_string \<Rightarrow> api_state \<Rightarrow> api_state" where
  "clearCacheByPattern pat s =
     s\<lparr> weatherCache := (\<lambda>key. if includes_str key pat then None else weatherCache s key),
        cityCache := (\<lambda>key. if includes_str key pat then None else cityCache s key) \<rparr>"

text \<open>A run of the layer: the calls made and the settlements that arrived, in order.\<close>

datatype event =
    FetchWeather js_string js_string int
  | SearchCities js_string int
  | SettleWeather nat "js_error + (json \<times> json \<times> json)" int
  | SettleCity nat "js_error + find_entry list" int
  | ClearCache
  | ClearCacheByPattern js_string

fun step :: "api_state \<Rightarrow> event \<Rightarrow> api_state" where
  "step s (FetchWeather la lo now) = snd (fetchWeatherData la lo now s)"
| "step s (SearchCities query now) = snd (searchCities query now s)"
| "step s (SettleWeather request outcome now) = settleWeather request outcome now s"
| "step s (SettleCity request outcome now) = settleCity request outcome now s"
| "step s ClearCache = clearCache s"
| "step s (ClearCacheByPattern pat) = clearCacheByPattern pat s"

definition run :: "event list \<Rightarrow> api_state" where
  "run evs = foldl step emptyApi evs"

definition inFlightFor :: "(nat \<times> js_string) list \<Rightarrow> js_string \<Rightarrow> nat" where
  "inFlightFor txs key = length (filter (\<lambda>t. snd t = key) txs)"


text \<open>
  Two predicates on the states of a run. \<open>allocated\<close>: every transaction in flight belongs
  to a promise that has been created, and to one only. \<open>coalesced\<close>: the promise of
  every transaction in flight is unsettled and is the pending entry of its key, every pending
  entry is a created promise, and a key that has a cache entry has a pending entry whose
  promise is fulfilled with the cached value.
\<close>

definition allocated :: "api_state \<Rightarrow> bool" where
  "allocated s =
     ((\<forall>t\<in>set (weatherInFlight s). fst t < nextPromise s)
      \<and> distinct (map fst (weatherInFlight s)))"

definition coalesced :: "api_state \<Rightarrow> bool" where
  "coalesced s =
     ((\<forall>t\<in>set (weatherInFlight s).
         pendingWeatherRequests s (snd t) = Some (fst t)
         \<and> weatherPromises s (fst t) = Some Pending)
      \<and> (\<forall>k p. pendingWeatherRequests s k = Some p \<longrightarrow> p < nextPromise s)
      \<and> (\<forall>k d ts. weatherCache s k = Some (d, ts) \<longrightarrow>
            Option.bind (pendingWeatherRequests s k) (weatherPromises s) = Some (Fulfilled d)))"

text \<open>
  Doubles used as inputs below: zero, the doubles that the literals \<^verbatim>\<open>12.9\<close>, \<^verbatim>\<open>77.6\<close>,
  \<^verbatim>\<open>12.9000001\<close> and \<^verbatim>\<open>77.6000001\<close> denote (\<^verbatim>\<open>0x1.9cccccccccccdp+3\<close>,
  \<^verbatim>\<open>0x1.3666666666666p+6\<close>, \<^verbatim>\<open>0x1.9ccccd027cb2p+3\<close>, \<^verbatim>\<open>0x1.3666666d1c631p+6\<close>), and
  \<^verbatim>\<open>-2^-74\<close>.
\<close>

definition zero64 :: double where
  "zero64 = Finite False 0 0"

definition lat_12_9 :: double where
  "lat_12_9 = Finite False 7262054399134925 (- 49)"

definition lon_77_6 :: double where
  "lon_77_6 = Finite False 2730307274093363 (- 45)"

definition lat_12_9000001 :: double where
  "lat_12_9000001 = Finite False 226939201732185 (- 44)"

definition lon_77_6000001 :: double where
  "lon_77_6000001 = Finite False 5460614555223601 (- 46)"

definition minus_2_pow_minus_74 :: double where
  "minus_2_pow_minus_74 = Finite True 1 (- 74)"

text \<open>
  Two rejections used as inputs below. \<open>notFoundError\<close>: the provider answers 404 with its
  own message. \<open>canceledError\<close>: what axios rejects a request with when the
  \<^verbatim>\<open>AbortSignal\<close> passed as \<^verbatim>\<open>signal\<close> aborts, a \<^verbatim>\<open>CanceledError\<close>; it is an \<^verbatim>\<open>AxiosError\<close>
  (\<^verbatim>\<open>axios.isAxiosError\<close> accepts it) with the name \<^verbatim>\<open>CanceledError\<close>, the message
  \<^verbatim>\<open>canceled\<close> and no response.
\<close>

definition notFoundError :: js_error where
  "notFoundError =
     \<lparr> instanceofError = True,
       errorName = utf16 ''AxiosError'',
       errorMessage = utf16 ''Request failed with status code 404'',
       isAxiosError = True,
       responseMessage = Some (utf16 ''city not found'') \<rparr>"

definition canceledError :: js_error where
  "canceledError =
     \<lparr> instanceofError = True,
       errorName = utf16 ''CanceledError'',
       errorMessage = utf16 ''canceled'',
       isAxiosError = True,
       responseMessage = None \<rparr>"

section \<open>Double arithmetic: rounding and the tolerance\<close>

lemma shift53_small: "n < 2 ^ 53 \<Longrightarrow> shift53 n = 0"
  by (simp add: shift53.simps)

lemma shift53_large: "2 ^ 53 \<le> n \<Longrightarrow> shift53 n = Suc (shift53 (n div 2))"
  by (subst shift53.simps) simp

lemma shift53_quotient_less: "n div 2 ^ shift53 n < 2 ^ 53"
proof (induction n rule: shift53.induct)
  case (1 n)
  show ?case
  proof (cases "n < 2 ^ 53")
    case True
    then show ?thesis by (simp add: shift53_small)
  next
    case False
    then have "n div 2 div 2 ^ shift53 (n div 2) < 2 ^ 53" by (rule "1.IH")
    then show ?thesis using False by (simp add: shift53_large div_mult2_eq)
  qed
qed

lemma shift53_quotient_ge: "2 ^ 53 \<le> n \<Longrightarrow> 2 ^ 52 \<le> n div 2 ^ shift53 n"
proof (induction n rule: shift53.induct)
  case (1 n)
  then have large: "\<not> n < 2 ^ 53" by simp
  have eq: "n div 2 ^ shift53 n = n div 2 div 2 ^ shift53 (n div 2)"
    using "1.prems" by (simp add: shift53_large div_mult2_eq)
  show ?case
  proof (cases "2 ^ 53 \<le> n div 2")
    case True
    with "1.IH"[OF large] eq show ?thesis by simp
  next
    case False
    then have "shift53 (n div 2) = 0" by (simp add: shift53_small)
    moreover have "(2::nat) ^ 52 \<le> n div 2" using "1.prems" by simp
    ultimately show ?thesis using eq by simp
  qed
qed

lemma real_aligned:
  assumes "e0 \<le> e"
  shows "real_of_int (aligned e0 s m e) * 2 powi e0 = valueOf (Finite s m e)"
proof -
  have "(2::real) ^ nat (e - e0) = 2 powi (e - e0)"
    using assms by (simp add: power_int_def)
  also have "\<dots> = 2 powi e / 2 powi e0"
    by (simp add: power_int_diff)
  finally show ?thesis
    by (simp add: aligned_def valueOf_def)
qed

lemma gt64_Finite_iff:
  "gt64 (Finite s m e) (Finite t n f) \<longleftrightarrow> valueOf (Finite t n f) < valueOf (Finite s m e)"
proof -
  let ?e0 = "min e f"
  have p: "(0::real) < 2 powi ?e0" by simp
  have a: "real_of_int (aligned ?e0 s m e) * 2 powi ?e0 = valueOf (Finite s m e)"
    by (rule real_aligned) simp
  have b: "real_of_int (aligned ?e0 t n f) * 2 powi ?e0 = valueOf (Finite t n f)"
    by (rule real_aligned) simp
  have "aligned ?e0 t n f < aligned ?e0 s m e \<longleftrightarrow>
        real_of_int (aligned ?e0 t n f) * 2 powi ?e0 < real_of_int (aligned ?e0 s m e) * 2 powi ?e0"
    using p by (simp only: mult_less_cancel_right_pos of_int_less_iff)
  then show ?thesis by (simp add: a b Let_def)
qed

lemma sub_exact:
  "real_of_int (aligned (min e f) s m e - aligned (min e f) t n f) * 2 powi (min e f)
     = valueOf (Finite s m e) - valueOf (Finite t n f)"
proof -
  have a: "real_of_int (aligned (min e f) s m e) * 2 powi (min e f) = valueOf (Finite s m e)"
    by (rule real_aligned) simp
  have b: "real_of_int (aligned (min e f) t n f) * 2 powi (min e f) = valueOf (Finite t n f)"
    by (rule real_aligned) simp
  show ?thesis by (simp add: a[symmetric] b[symmetric] algebra_simps)
qed

lemma powi_exp_less: "(2::real) powi a < 2 powi b \<Longrightarrow> a < b"
  using power_int_increasing[of b a "2::real"] by (cases "a < b") auto

lemma rounding_parts:
  fixes N :: nat and e0 :: int
  defines "k \<equiv> shift53 N"
  defines "q \<equiv> N div 2 ^ k" and "r \<equiv> N mod 2 ^ k"
  defines "u \<equiv> (2::real) powi (e0 + int k)"
  shows "real N * 2 powi e0 = real q * u + real r * 2 powi e0"
    and "real r * 2 powi e0 < u"
    and "0 \<le> real r * 2 powi e0"
    and "u = 2 ^ k * 2 powi e0"
    and "q < 2 ^ 53"
    and "2 ^ 53 \<le> N \<Longrightarrow> 2 ^ 52 \<le> q"
    and "q \<le> roundedSignificand N"
    and "roundedSignificand N \<le> q + 1"
    and "2 * r < 2 ^ k \<Longrightarrow> roundedSignificand N = q"
    and "N < 2 ^ 53 \<Longrightarrow> k = 0 \<and> roundedSignificand N = N"
proof -
  show u: "u = 2 ^ k * 2 powi e0"
    unfolding u_def by (simp add: power_int_add)
  have N: "N = q * 2 ^ k + r"
    unfolding q_def r_def by (rule div_mult_mod_eq[symmetric])
  have "real N = real q * 2 ^ k + real r"
    by (subst N) simp
  then show "real N * 2 powi e0 = real q * u + real r * 2 powi e0"
    by (simp add: u algebra_simps)
  have "r < 2 ^ k" unfolding r_def by simp
  then have "real r < 2 ^ k"
    by (metis of_nat_less_iff of_nat_numeral of_nat_power)
  then show "real r * 2 powi e0 < u"
    unfolding u by (simp add: mult_less_cancel_right_pos)
  show "0 \<le> real r * 2 powi e0" by simp
  show "q < 2 ^ 53" unfolding q_def k_def by (rule shift53_quotient_less)
  show "2 ^ 53 \<le> N \<Longrightarrow> 2 ^ 52 \<le> q"
    unfolding q_def k_def by (rule shift53_quotient_ge)
  show "q \<le> roundedSignificand N" "roundedSignificand N \<le> q + 1"
    by (simp_all add: roundedSignificand_def Let_def q_def k_def)
  show "2 * r < 2 ^ k \<Longrightarrow> roundedSignificand N = q"
    by (simp add: roundedSignificand_def Let_def q_def k_def r_def)
  show "N < 2 ^ 53 \<Longrightarrow> k = 0 \<and> roundedSignificand N = N"
    by (simp add: roundedSignificand_def Let_def k_def shift53_small)
qed

lemma real_less_nat_numeral: "N < 2 ^ 53 \<Longrightarrow> real N < 2 ^ 53"
  by (simp only: of_nat_less_numeral_power_cancel_iff)

lemma real_ge_nat_numeral: "2 ^ 52 \<le> (q::nat) \<Longrightarrow> (2::real) ^ 52 \<le> real q"
  by (simp only: numeral_power_le_of_nat_cancel_iff)

lemma within_sig:
  assumes x: "real N * 2 powi e0 \<le> 1 / 1000000"
  shows "real (roundedSignificand N) * 2 powi (e0 + int (shift53 N))
           \<le> 4722366482869645 * 2 powi (- 72)"
proof -
  let ?k = "shift53 N"
  let ?q = "N div 2 ^ ?k"
  let ?r = "N mod 2 ^ ?k"
  let ?u = "(2::real) powi (e0 + int ?k)"
  let ?P = "(2::real) powi e0"
  let ?Q = "roundedSignificand N"
  let ?T = "4722366482869645 * (2::real) powi (- 72)"
  have rp1: "real N * ?P = real ?q * ?u + real ?r * ?P" by (rule rounding_parts(1))
  have rp3: "0 \<le> real ?r * ?P" by (rule rounding_parts(3))
  have rp4: "?u = 2 ^ ?k * ?P" by (rule rounding_parts(4))
  have rp5: "?q < 2 ^ 53" by (rule rounding_parts(5))
  have rp6: "2 ^ 53 \<le> N \<Longrightarrow> 2 ^ 52 \<le> ?q" by (rule rounding_parts(6))
  have rp7: "?q \<le> ?Q" by (rule rounding_parts(7))
  have rp8: "?Q \<le> ?q + 1" by (rule rounding_parts(8))
  have rp9: "2 * ?r < 2 ^ ?k \<Longrightarrow> ?Q = ?q" by (rule rounding_parts(9))
  have rp10: "N < 2 ^ 53 \<Longrightarrow> ?k = 0 \<and> ?Q = N" by (rule rounding_parts(10))
  have Ppos: "0 < ?P" by simp
  have upos: "0 < ?u" by simp
  show ?thesis
  proof (cases "N < 2 ^ 53")
    case True
    with rp10 have k0: "?k = 0" and Q: "?Q = N" by auto
    have "real N * ?P \<le> ?T"
    proof (rule ccontr)
      assume "\<not> real N * ?P \<le> ?T"
      then have gt: "?T < real N * ?P" by simp
      have "real N < 2 ^ 53" using True by (rule real_less_nat_numeral)
      then have "real N * ?P < 2 ^ 53 * ?P"
        using Ppos by (simp only: mult_less_cancel_right_pos)
      with gt have "?T < 2 ^ 53 * ?P" by linarith
      then have "(2::real) powi (- 73) < ?P"
        by (simp add: power_int_minus_divide)
      then have "- 73 < e0" by (rule powi_exp_less)
      define j where "j = nat (e0 + 72)"
      have "e0 = int j + (- 72)" using \<open>- 73 < e0\<close> by (simp add: j_def)
      then have "?P = 2 powi (int j + (- 72))" by simp
      also have "\<dots> = 2 ^ j * 2 powi (- 72)"
        by (subst power_int_add) simp_all
      finally have P: "?P = 2 ^ j * 2 powi (- 72)" .
      have xM: "real N * ?P = real (N * 2 ^ j) * 2 powi (- 72)"
        by (simp add: P)
      from gt xM have "4722366482869645 * (2::real) powi (- 72) < real (N * 2 ^ j) * 2 powi (- 72)"
        by simp
      then have "(4722366482869645::real) < real (N * 2 ^ j)"
        by (simp only: mult_less_cancel_right_pos zero_less_power_int zero_less_numeral)
      then have "4722366482869645 < N * 2 ^ j"
        by (simp only: numeral_nat_less_iff)
      then have "4722366482869646 \<le> N * 2 ^ j" by simp
      then have "(4722366482869646::real) \<le> real (N * 2 ^ j)"
        by (simp only: numeral_nat_le_iff)
      then have "4722366482869646 * (2::real) powi (- 72) \<le> real (N * 2 ^ j) * 2 powi (- 72)"
        by (simp only: mult_le_cancel_right_pos zero_less_power_int zero_less_numeral)
      with xM x have "4722366482869646 * (2::real) powi (- 72) \<le> 1 / 1000000" by linarith
      then show False by (simp add: power_int_minus_divide)
    qed
    then show ?thesis using k0 Q by simp
  next
    case False
    then have large: "2 ^ 53 \<le> N" by simp
    from rp6[OF large] have q52: "(2::real) ^ 52 \<le> real ?q" by (rule real_ge_nat_numeral)
    have q53: "real ?q < 2 ^ 53" using rp5 by (rule real_less_nat_numeral)
    have xq: "real ?q * ?u \<le> real N * ?P" using rp1 rp3 by linarith
    have "2 ^ 52 * ?u \<le> real ?q * ?u"
      using q52 upos by (simp only: mult_le_cancel_right_pos)
    with xq x have "2 ^ 52 * ?u \<le> 1 / 1000000" by linarith
    then have "?u < 2 powi (- 71)" by (simp add: power_int_minus_divide)
    then have le: "e0 + int ?k \<le> - 72" using powi_exp_less by fastforce
    have QQ: "real ?Q \<le> real ?q + 1" using rp8 by linarith
    show ?thesis
    proof (cases "e0 + int ?k = - 72")
      case False
      with le have "e0 + int ?k \<le> - 73" by simp
      then have "?u \<le> 2 powi (- 73)" by (intro power_int_increasing) simp_all
      moreover have "?Q \<le> 2 ^ 53" using rp5 rp8 by simp
      then have "real ?Q \<le> 2 ^ 53"
        by (simp only: of_nat_le_numeral_power_cancel_iff)
      ultimately have "real ?Q * ?u \<le> 2 ^ 53 * 2 powi (- 73)"
        by (intro mult_mono) simp_all
      also have "\<dots> \<le> ?T" by (simp add: power_int_minus_divide)
      finally show ?thesis .
    next
      case True
      then have u: "?u = 2 powi (- 72)" by simp
      have "real ?q * 2 powi (- 72) \<le> 1 / 1000000" using xq x u by simp
      also have "\<dots> < 4722366482869646 * (2::real) powi (- 72)"
        by (simp add: power_int_minus_divide)
      finally have "real ?q < 4722366482869646"
        by (simp only: mult_less_cancel_right_pos zero_less_power_int zero_less_numeral)
      then have "?q < 4722366482869646"
        by (simp only: of_nat_less_numeral_iff)
      then have qle: "?q \<le> 4722366482869645" by simp
      show ?thesis
      proof (cases "?q = 4722366482869645")
        case False
        with qle have "?q + 1 \<le> 4722366482869645" by simp
        with rp8 have "?Q \<le> 4722366482869645" by simp
        then have "real ?Q \<le> 4722366482869645"
          by (simp only: of_nat_le_numeral_iff)
        then show ?thesis
          unfolding u by (simp only: mult_le_cancel_right_pos zero_less_power_int zero_less_numeral)
      next
        case q: True
        have "real ?r * ?P = real N * ?P - real ?q * ?u" using rp1 by simp
        also have "\<dots> \<le> 1 / 1000000 - 4722366482869645 * 2 powi (- 72)"
          using x by (simp add: q u)
        also have "\<dots> < 2 powi (- 73)" by (simp add: power_int_minus_divide)
        finally have h: "2 * (real ?r * ?P) < 2 powi (- 72)"
          by (simp add: power_int_minus_divide)
        have eq: "2 ^ ?k * ?P = 2 powi (- 72)"
          using rp4 u by (simp only:)
        have "real (2 * ?r) * ?P < 2 ^ ?k * ?P"
          unfolding eq using h by (simp only: of_nat_mult of_nat_numeral mult.assoc)
        then have "real (2 * ?r) < 2 ^ ?k"
          using Ppos by (simp only: mult_less_cancel_right_pos)
        then have "2 * ?r < 2 ^ ?k"
          by (simp only: of_nat_less_numeral_power_cancel_iff)
        from rp9[OF this] have "?Q = 4722366482869645" using q by simp
        then show ?thesis by (simp add: u)
      qed
    qed
  qed
qed

lemma beyond_sig:
  assumes x: "1 / 1000000 + 2 powi (- 72) \<le> real N * 2 powi e0"
  shows "4722366482869646 * 2 powi (- 72)
           \<le> real (roundedSignificand N) * 2 powi (e0 + int (shift53 N))"
proof -
  let ?k = "shift53 N"
  let ?q = "N div 2 ^ ?k"
  let ?r = "N mod 2 ^ ?k"
  let ?u = "(2::real) powi (e0 + int ?k)"
  let ?P = "(2::real) powi e0"
  let ?Q = "roundedSignificand N"
  let ?B = "4722366482869646 * (2::real) powi (- 72)"
  have rp1: "real N * ?P = real ?q * ?u + real ?r * ?P" by (rule rounding_parts(1))
  have rp2: "real ?r * ?P < ?u" by (rule rounding_parts(2))
  have rp5: "?q < 2 ^ 53" by (rule rounding_parts(5))
  have rp6: "2 ^ 53 \<le> N \<Longrightarrow> 2 ^ 52 \<le> ?q" by (rule rounding_parts(6))
  have rp7: "?q \<le> ?Q" by (rule rounding_parts(7))
  have rp10: "N < 2 ^ 53 \<Longrightarrow> ?k = 0 \<and> ?Q = N" by (rule rounding_parts(10))
  have upos: "0 < ?u" by simp
  have B: "?B \<le> real N * ?P"
  proof -
    have "?B \<le> 1 / 1000000 + 2 powi (- 72)" by (simp add: power_int_minus_divide)
    with x show ?thesis by linarith
  qed
  show ?thesis
  proof (cases "N < 2 ^ 53")
    case True
    with rp10 have "?k = 0" and "?Q = N" by auto
    with B show ?thesis by simp
  next
    case False
    then have large: "2 ^ 53 \<le> N" by simp
    from rp6[OF large] have q52: "(2::real) ^ 52 \<le> real ?q" by (rule real_ge_nat_numeral)
    have q53: "real ?q + 1 \<le> 2 ^ 53"
    proof -
      have "?q + 1 \<le> 2 ^ 53" using rp5 by simp
      then have "real (?q + 1) \<le> 2 ^ 53"
        by (simp only: of_nat_le_numeral_power_cancel_iff)
      then show ?thesis by simp
    qed
    have Qq: "real ?q * ?u \<le> real ?Q * ?u"
      using rp7 upos by (simp only: mult_le_cancel_right_pos of_nat_le_iff)
    have xlt: "real N * ?P < (real ?q + 1) * ?u"
      using rp1 rp2 by (simp add: algebra_simps)
    consider "- 71 \<le> e0 + int ?k" | "e0 + int ?k \<le> - 73" | "e0 + int ?k = - 72"
      by linarith
    then show ?thesis
    proof cases
      case 1
      then have "2 powi (- 71) \<le> ?u" by (intro power_int_increasing) simp_all
      with q52 have "2 ^ 52 * 2 powi (- 71) \<le> real ?q * ?u"
        by (intro mult_mono) simp_all
      moreover have "?B \<le> 2 ^ 52 * 2 powi (- 71)" by (simp add: power_int_minus_divide)
      ultimately show ?thesis using Qq by linarith
    next
      case 2
      then have "?u \<le> 2 powi (- 73)" by (intro power_int_increasing) simp_all
      with q53 have "(real ?q + 1) * ?u \<le> 2 ^ 53 * 2 powi (- 73)"
        by (intro mult_mono) simp_all
      moreover have "2 ^ 53 * 2 powi (- 73) < ?B" by (simp add: power_int_minus_divide)
      ultimately have False using xlt B by linarith
      then show ?thesis ..
    next
      case 3
      then have u: "?u = 2 powi (- 72)" by simp
      from B xlt have "?B < (real ?q + 1) * 2 powi (- 72)" unfolding u by linarith
      then have "(4722366482869646::real) < real ?q + 1"
        by (simp only: mult_less_cancel_right_pos zero_less_power_int zero_less_numeral)
      then have "(4722366482869646::real) < real (?q + 1)" by simp
      then have "4722366482869646 < ?q + 1"
        by (simp only: numeral_nat_less_iff)
      then have "4722366482869646 \<le> ?q" by simp
      then have "(4722366482869646::real) \<le> real ?q"
        by (simp only: numeral_nat_le_iff)
      then have "?B \<le> real ?q * 2 powi (- 72)"
        by (simp only: mult_le_cancel_right_pos zero_less_power_int zero_less_numeral)
      with Qq show ?thesis unfolding u by linarith
    qed
  qed
qed

lemma valueOf_tolerance: "valueOf tolerance = 4722366482869645 * 2 powi (- 72)"
  unfolding valueOf_def tolerance_def by simp

lemma valueOf_Finite_pos: "valueOf (Finite False q e) = real q * 2 powi e"
  by (simp add: valueOf_def)

lemma overflow_real:
  assumes "0 \<le> e" and "2 ^ 1024 \<le> int q * 2 ^ nat e"
  shows "(2::real) ^ 1024 \<le> real q * 2 powi e"
proof -
  have "real_of_int (2 ^ 1024) \<le> real_of_int (int q * 2 ^ nat e)"
    using assms(2) by (simp only: of_int_le_iff)
  moreover have "(2::real) powi e = 2 ^ nat e"
    using assms(1) by (simp add: power_int_def)
  ultimately show ?thesis by simp
qed

lemma roundTo_within:
  assumes "real N * 2 powi e0 \<le> 1 / 1000000"
  shows "\<not> gt64 (abs64 (roundTo s N e0)) tolerance"
proof -
  let ?E = "e0 + int (shift53 N)" and ?Q = "roundedSignificand N"
  have v: "real ?Q * 2 powi ?E \<le> valueOf tolerance"
    unfolding valueOf_tolerance using assms by (rule within_sig)
  have small: "valueOf tolerance < 2 ^ 1024"
    unfolding valueOf_tolerance by (simp add: power_int_minus_divide)
  have "\<not> (0 \<le> ?E \<and> 2 ^ 1024 \<le> int ?Q * 2 ^ nat ?E)"
  proof
    assume "0 \<le> ?E \<and> 2 ^ 1024 \<le> int ?Q * 2 ^ nat ?E"
    then have "(2::real) ^ 1024 \<le> real ?Q * 2 powi ?E"
      using overflow_real by blast
    with v small show False by linarith
  qed
  then have r: "roundTo s N e0 = Finite s ?Q ?E"
    by (simp add: roundTo_def Let_def)
  have "gt64 (Finite False ?Q ?E) tolerance \<longleftrightarrow> valueOf tolerance < valueOf (Finite False ?Q ?E)"
    unfolding tolerance_def by (rule gt64_Finite_iff)
  with v show ?thesis by (simp add: r valueOf_Finite_pos)
qed

lemma roundTo_beyond:
  assumes "1 / 1000000 + 2 powi (- 72) \<le> real N * 2 powi e0"
  shows "gt64 (abs64 (roundTo s N e0)) tolerance"
proof -
  let ?E = "e0 + int (shift53 N)" and ?Q = "roundedSignificand N"
  have "4722366482869646 * 2 powi (- 72) \<le> real ?Q * 2 powi ?E"
    using assms by (rule beyond_sig)
  moreover have "valueOf tolerance < 4722366482869646 * 2 powi (- 72)"
    unfolding valueOf_tolerance by simp
  ultimately have v: "valueOf tolerance < real ?Q * 2 powi ?E" by linarith
  show ?thesis
  proof (cases "0 \<le> ?E \<and> 2 ^ 1024 \<le> int ?Q * 2 ^ nat ?E")
    case True
    then have "roundTo s N e0 = Infinity s" by (simp add: roundTo_def Let_def)
    then show ?thesis by (simp add: tolerance_def)
  next
    case False
    then have r: "roundTo s N e0 = Finite s ?Q ?E" by (simp add: roundTo_def Let_def)
    have "gt64 (Finite False ?Q ?E) tolerance \<longleftrightarrow> valueOf tolerance < valueOf (Finite False ?Q ?E)"
      unfolding tolerance_def by (rule gt64_Finite_iff)
    with v show ?thesis by (simp add: r valueOf_Finite_pos)
  qed
qed

lemma sub64_magnitude:
  assumes "aligned (min e f) s m e - aligned (min e f) t n f = d"
  shows "real (nat \<bar>d\<bar>) * 2 powi (min e f) = \<bar>valueOf (Finite s m e) - valueOf (Finite t n f)\<bar>"
proof -
  have "real (nat \<bar>d\<bar>) = \<bar>real_of_int d\<bar>" by simp
  then have "real (nat \<bar>d\<bar>) * 2 powi (min e f) = \<bar>real_of_int d * 2 powi (min e f)\<bar>"
    by (simp add: abs_mult)
  also have "real_of_int d * 2 powi (min e f) = valueOf (Finite s m e) - valueOf (Finite t n f)"
    unfolding assms[symmetric] by (rule sub_exact)
  finally show ?thesis .
qed

lemma within_tolerance_not_exceeded:
  assumes "isFinite a" and "isFinite b"
    and "\<bar>valueOf a - valueOf b\<bar> \<le> 1 / 1000000"
  shows "\<not> gt64 (abs64 (sub64 a b)) tolerance"
proof -
  obtain s m e where a: "a = Finite s m e"
    using assms(1) by (cases a) (simp_all add: isFinite_def)
  obtain t n f where b: "b = Finite t n f"
    using assms(2) by (cases b) (simp_all add: isFinite_def)
  define d where "d = aligned (min e f) s m e - aligned (min e f) t n f"
  show ?thesis
  proof (cases "d = 0")
    case True
    then have "sub64 a b = Finite (s \<and> \<not> t) 0 (min e f)"
      by (simp add: a b d_def Let_def)
    moreover have "\<not> gt64 (Finite False 0 (min e f)) tolerance"
      unfolding tolerance_def by (simp add: aligned_def Let_def)
    ultimately show ?thesis by simp
  next
    case False
    then have r: "sub64 a b = roundTo (d < 0) (nat \<bar>d\<bar>) (min e f)"
      by (simp add: a b d_def Let_def)
    have "real (nat \<bar>d\<bar>) * 2 powi (min e f) = \<bar>valueOf a - valueOf b\<bar>"
      unfolding a b by (rule sub64_magnitude) (simp add: d_def)
    with assms(3) have "real (nat \<bar>d\<bar>) * 2 powi (min e f) \<le> 1 / 1000000" by simp
    then show ?thesis unfolding r by (rule roundTo_within)
  qed
qed

lemma beyond_tolerance_exceeded:
  assumes "isFinite a" and "isFinite b"
    and "1 / 1000000 + 2 powi (- 72) \<le> \<bar>valueOf a - valueOf b\<bar>"
  shows "gt64 (abs64 (sub64 a b)) tolerance"
proof -
  obtain s m e where a: "a = Finite s m e"
    using assms(1) by (cases a) (simp_all add: isFinite_def)
  obtain t n f where b: "b = Finite t n f"
    using assms(2) by (cases b) (simp_all add: isFinite_def)
  define d where "d = aligned (min e f) s m e - aligned (min e f) t n f"
  have mag: "real (nat \<bar>d\<bar>) * 2 powi (min e f) = \<bar>valueOf a - valueOf b\<bar>"
    unfolding a b by (rule sub64_magnitude) (simp add: d_def)
  have "d \<noteq> 0"
  proof
    assume "d = 0"
    with mag have "\<bar>valueOf a - valueOf b\<bar> = 0" by simp
    with assms(3) have "1 / 1000000 + (2::real) powi (- 72) \<le> 0" by simp
    moreover have "(0::real) < 2 powi (- 72)" by (rule zero_less_power_int) simp
    ultimately show False by linarith
  qed
  then have r: "sub64 a b = roundTo (d < 0) (nat \<bar>d\<bar>) (min e f)"
    by (simp add: a b d_def Let_def)
  from assms(3) mag have "1 / 1000000 + 2 powi (- 72) \<le> real (nat \<bar>d\<bar>) * 2 powi (min e f)"
    by simp
  then show ?thesis unfolding r by (rule roundTo_beyond)
qed

lemmas double_eval =
  aligned_def roundTo_def roundedSignificand_def shift53_small shift53_large Let_def
  tolerance_def

section \<open>The store: location policy\<close>

lemmas setter_defs =
  setCoordinates_def setWeatherData_def setLoading_def setError_def setLocationDialog_def
  setManualSelection_def setGeolocationEnabled_def setInitialLoad_def setSearchQuery_def
  setCitySuggestions_def setSearching_def

lemma dispatch_keeps_exclusion:
  assumes "a \<noteq> SetManualSelection True" and "a \<noteq> SetGeolocationEnabled True"
    and "\<not> (isManualSelection s \<and> geolocationEnabled s)"
  shows "\<not> (isManualSelection (dispatch dc s a) \<and> geolocationEnabled (dispatch dc s a))"
  using assms
  by (cases a)
     (auto simp: setter_defs updateLocation_def Let_def triggerCurrentLocation_def
        handleLocationPermission_def reset_def initialState_def)

lemma foldl_dispatch_keeps_exclusion:
  "\<forall>a\<in>set acts. a \<noteq> SetManualSelection True \<and> a \<noteq> SetGeolocationEnabled True \<Longrightarrow>
   \<not> (isManualSelection s \<and> geolocationEnabled s) \<Longrightarrow>
   \<not> (isManualSelection (foldl (dispatch dc) s acts) \<and>
      geolocationEnabled (foldl (dispatch dc) s acts))"
proof (induction acts arbitrary: s)
  case Nil
  then show ?case by simp
next
  case (Cons a acts)
  have "\<not> (isManualSelection (dispatch dc s a) \<and> geolocationEnabled (dispatch dc s a))"
    using Cons.prems by (intro dispatch_keeps_exclusion) auto
  then show ?case using Cons by simp
qed

text \<open>
  Claim C6, as stated, fails: the simple setters write one flag and leave the other, so
  \<^verbatim>\<open>setManualSelection(true)\<close> followed by \<^verbatim>\<open>setGeolocationEnabled(true)\<close> reaches a state in
  which both flags are true.
\<close>

theorem C6_setters_break_exclusion:
  "isManualSelection
     (session \<lparr>lat = zero64, lon = zero64\<rparr> [SetManualSelection True, SetGeolocationEnabled True])
   \<and> geolocationEnabled
     (session \<lparr>lat = zero64, lon = zero64\<rparr> [SetManualSelection True, SetGeolocationEnabled True])"
  by (simp add: session_def initialState_def setter_defs)

text \<open>
  Claim C6, amended: in every state reached from the initial state by a sequence of actions
  in which neither \<^verbatim>\<open>setManualSelection(true)\<close> nor \<^verbatim>\<open>setGeolocationEnabled(true)\<close> occurs,
  \<open>isManualSelection\<close> and \<open>geolocationEnabled\<close> are not both true. All other actions,
  the two setters called with \<^verbatim>\<open>false\<close> included, are allowed.
\<close>

theorem C6_exclusion_without_flag_setters:
  assumes "SetManualSelection True \<notin> set acts" and "SetGeolocationEnabled True \<notin> set acts"
  shows "\<not> (isManualSelection (session dc acts) \<and> geolocationEnabled (session dc acts))"
proof -
  have "\<forall>a\<in>set acts. a \<noteq> SetManualSelection True \<and> a \<noteq> SetGeolocationEnabled True"
    using assms by auto
  then show ?thesis
    unfolding session_def
    by (rule foldl_dispatch_keeps_exclusion) (simp add: initialState_def)
qed

theorem C6_exclusion_witness:
  "SetManualSelection True \<notin>
     set [HandleLocationPermission True, UpdateLocation lat_12_9 lon_77_6, TriggerCurrentLocation,
          SetGeolocationEnabled False, HandleLocationPermission False]
   \<and> SetGeolocationEnabled True \<notin>
     set [HandleLocationPermission True, UpdateLocation lat_12_9 lon_77_6, TriggerCurrentLocation,
          SetGeolocationEnabled False, HandleLocationPermission False]
   \<and> \<not> (isManualSelection
           (session \<lparr>lat = zero64, lon = zero64\<rparr>
              [HandleLocationPermission True, UpdateLocation lat_12_9 lon_77_6, TriggerCurrentLocation,
               SetGeolocationEnabled False, HandleLocationPermission False])
        \<and> geolocationEnabled
           (session \<lparr>lat = zero64, lon = zero64\<rparr>
              [HandleLocationPermission True, UpdateLocation lat_12_9 lon_77_6, TriggerCurrentLocation,
               SetGeolocationEnabled False, HandleLocationPermission False]))"
proof -
  have h1: "SetManualSelection True \<notin>
     set [HandleLocationPermission True, UpdateLocation lat_12_9 lon_77_6, TriggerCurrentLocation,
          SetGeolocationEnabled False, HandleLocationPermission False]"
    by simp
  have h2: "SetGeolocationEnabled True \<notin>
     set [HandleLocationPermission True, UpdateLocation lat_12_9 lon_77_6, TriggerCurrentLocation,
          SetGeolocationEnabled False, HandleLocationPermission False]"
    by simp
  show ?thesis
    using h1 h2 C6_exclusion_without_flag_setters [OF h1 h2, of "\<lparr>lat = zero64, lon = zero64\<rparr>"]
    by blast
qed

text \<open>
  Claim C7: \<^verbatim>\<open>handleLocationPermission(allow)\<close> closes the dialog whatever \<open>allow\<close> is. On
  \<^verbatim>\<open>true\<close> it enables geolocation, clears the manual flag and keeps the coordinates; on
  \<^verbatim>\<open>false\<close> it disables geolocation, sets the manual flag and puts the default coordinates.
\<close>

theorem C7_handleLocationPermission:
  "showLocationDialog (handleLocationPermission dc allow s) = False
   \<and> geolocationEnabled (handleLocationPermission dc True s) = True
   \<and> isManualSelection (handleLocationPermission dc True s) = False
   \<and> coordinates (handleLocationPermission dc True s) = coordinates s
   \<and> geolocationEnabled (handleLocationPermission dc False s) = False
   \<and> isManualSelection (handleLocationPermission dc False s) = True
   \<and> coordinates (handleLocationPermission dc False s) = dc"
  by (simp add: handleLocationPermission_def)

text \<open>
  Claim C8, as stated, fails at the edge of the tolerance: the test is evaluated in double
  arithmetic, where the difference is rounded. With the current latitude the double
  \<^verbatim>\<open>0.000001\<close> and the new latitude \<^verbatim>\<open>-2^-74\<close> (the longitude is zero and stays), the two
  latitudes differ by more than \<open>1/1000000\<close>, the difference rounds to the double
  \<^verbatim>\<open>0.000001\<close>, which is not greater than itself, and \<^verbatim>\<open>updateLocation\<close> leaves the state as
  it is.
\<close>

theorem C8_rounded_difference_not_detected:
  "1 / 1000000 <
     \<bar>valueOf (lat (coordinates
         (setCoordinates \<lparr>lat = tolerance, lon = zero64\<rparr>
            (initialState \<lparr>lat = zero64, lon = zero64\<rparr>))))
      - valueOf minus_2_pow_minus_74\<bar>
   \<and> updateLocation minus_2_pow_minus_74 zero64
       (setCoordinates \<lparr>lat = tolerance, lon = zero64\<rparr>
          (initialState \<lparr>lat = zero64, lon = zero64\<rparr>))
     = setCoordinates \<lparr>lat = tolerance, lon = zero64\<rparr>
         (initialState \<lparr>lat = zero64, lon = zero64\<rparr>)
   \<and> coordinates
       (updateLocation minus_2_pow_minus_74 zero64
          (setCoordinates \<lparr>lat = tolerance, lon = zero64\<rparr>
             (initialState \<lparr>lat = zero64, lon = zero64\<rparr>)))
     \<noteq> \<lparr>lat = minus_2_pow_minus_74, lon = zero64\<rparr>"
proof -
  have v: "1 / 1000000 < \<bar>valueOf tolerance - valueOf minus_2_pow_minus_74\<bar>"
    by (simp add: valueOf_def tolerance_def minus_2_pow_minus_74_def)
  have la: "\<not> gt64 (abs64 (sub64 tolerance minus_2_pow_minus_74)) tolerance"
    by (simp add: minus_2_pow_minus_74_def double_eval)
  have lo: "\<not> gt64 (abs64 (sub64 zero64 zero64)) tolerance"
    by (simp add: zero64_def double_eval)
  have ne: "tolerance \<noteq> minus_2_pow_minus_74"
    by (simp add: tolerance_def minus_2_pow_minus_74_def)
  show ?thesis
    using v la lo ne
    by (simp add: updateLocation_def Let_def setCoordinates_def initialState_def)
qed

text \<open>
  Claim C8, amended: for every store state and every pair of doubles \<open>(lat, lon)\<close>,
  \<^item> if \<^verbatim>\<open>Math.abs(current.lat - lat) > 0.000001\<close> or
    \<^verbatim>\<open>Math.abs(current.lon - lon) > 0.000001\<close> holds as evaluated in double arithmetic (the
    difference rounded to the nearest double and compared with the double \<^verbatim>\<open>0.000001\<close>),
    \<^verbatim>\<open>updateLocation\<close> stores the pair, sets \<open>isManualSelection\<close>, clears
    \<open>geolocationEnabled\<close>, sets \<open>hasInitialLoad\<close> and clears \<open>error\<close>, and changes nothing
    else;
  \<^item> otherwise, which includes every difference that is not a number, the state is the one
    before;
  \<^item> for finite coordinates: when both axes differ by at most \<open>1/1000000\<close>, the state is the
    one before, and when an axis differs by at least \<^verbatim>\<open>1/1000000 + 2^-72\<close>, the update is
    made. Only between these two bounds does the outcome depend on the rounding.
\<close>

theorem C8_updateLocation:
  "(gt64 (abs64 (sub64 (lat (coordinates s)) la)) tolerance
      \<or> gt64 (abs64 (sub64 (lon (coordinates s)) lo)) tolerance \<longrightarrow>
      updateLocation la lo s =
        s\<lparr> coordinates := \<lparr>lat = la, lon = lo\<rparr>, isManualSelection := True,
           geolocationEnabled := False, hasInitialLoad := True, error := None \<rparr>)
   \<and> (\<not> gt64 (abs64 (sub64 (lat (coordinates s)) la)) tolerance
      \<and> \<not> gt64 (abs64 (sub64 (lon (coordinates s)) lo)) tolerance \<longrightarrow>
      updateLocation la lo s = s)
   \<and> (isFinite (lat (coordinates s)) \<and> isFinite la
      \<and> isFinite (lon (coordinates s)) \<and> isFinite lo
      \<and> \<bar>valueOf (lat (coordinates s)) - valueOf la\<bar> \<le> 1 / 1000000
      \<and> \<bar>valueOf (lon (coordinates s)) - valueOf lo\<bar> \<le> 1 / 1000000 \<longrightarrow>
      updateLocation la lo s = s)
   \<and> ((isFinite (lat (coordinates s)) \<and> isFinite la
        \<and> 1 / 1000000 + 2 powi (- 72) \<le> \<bar>valueOf (lat (coordinates s)) - valueOf la\<bar>)
      \<or> (isFinite (lon (coordinates s)) \<and> isFinite lo
        \<and> 1 / 1000000 + 2 powi (- 72) \<le> \<bar>valueOf (lon (coordinates s)) - valueOf lo\<bar>) \<longrightarrow>
      updateLocation la lo s =
        s\<lparr> coordinates := \<lparr>lat = la, lon = lo\<rparr>, isManualSelection := True,
           geolocationEnabled := False, hasInitialLoad := True, error := None \<rparr>)"
proof (intro conjI impI)
  assume "gt64 (abs64 (sub64 (lat (coordinates s)) la)) tolerance
      \<or> gt64 (abs64 (sub64 (lon (coordinates s)) lo)) tolerance"
  then show "updateLocation la lo s =
        s\<lparr> coordinates := \<lparr>lat = la, lon = lo\<rparr>, isManualSelection := True,
           geolocationEnabled := False, hasInitialLoad := True, error := None \<rparr>"
    by (simp add: updateLocation_def Let_def)
next
  assume "\<not> gt64 (abs64 (sub64 (lat (coordinates s)) la)) tolerance
      \<and> \<not> gt64 (abs64 (sub64 (lon (coordinates s)) lo)) tolerance"
  then show "updateLocation la lo s = s"
    by (simp add: updateLocation_def Let_def)
next
  assume h: "isFinite (lat (coordinates s)) \<and> isFinite la
      \<and> isFinite (lon (coordinates s)) \<and> isFinite lo
      \<and> \<bar>valueOf (lat (coordinates s)) - valueOf la\<bar> \<le> 1 / 1000000
      \<and> \<bar>valueOf (lon (coordinates s)) - valueOf lo\<bar> \<le> 1 / 1000000"
  have "\<not> gt64 (abs64 (sub64 (lat (coordinates s)) la)) tolerance"
    using h by (intro within_tolerance_not_exceeded) simp_all
  moreover have "\<not> gt64 (abs64 (sub64 (lon (coordinates s)) lo)) tolerance"
    using h by (intro within_tolerance_not_exceeded) simp_all
  ultimately show "updateLocation la lo s = s"
    by (simp add: updateLocation_def Let_def)
next
  assume "(isFinite (lat (coordinates s)) \<and> isFinite la
        \<and> 1 / 1000000 + 2 powi (- 72) \<le> \<bar>valueOf (lat (coordinates s)) - valueOf la\<bar>)
      \<or> (isFinite (lon (coordinates s)) \<and> isFinite lo
        \<and> 1 / 1000000 + 2 powi (- 72) \<le> \<bar>valueOf (lon (coordinates s)) - valueOf lo\<bar>)"
  then have "gt64 (abs64 (sub64 (lat (coordinates s)) la)) tolerance
      \<or> gt64 (abs64 (sub64 (lon (coordinates s)) lo)) tolerance"
    using beyond_tolerance_exceeded by blast
  then show "updateLocation la lo s =
        s\<lparr> coordinates := \<lparr>lat = la, lon = lo\<rparr>, isManualSelection := True,
           geolocationEnabled := False, hasInitialLoad := True, error := None \<rparr>"
    by (simp add: updateLocation_def Let_def)
qed

theorem C8_updateLocation_witness:
  "gt64 (abs64 (sub64 (lat (coordinates (initialState \<lparr>lat = zero64, lon = zero64\<rparr>)))
      lat_12_9)) tolerance
   \<and> isFinite (lat (coordinates (initialState \<lparr>lat = zero64, lon = zero64\<rparr>)))
   \<and> isFinite lat_12_9
   \<and> 1 / 1000000 + 2 powi (- 72)
       \<le> \<bar>valueOf (lat (coordinates (initialState \<lparr>lat = zero64, lon = zero64\<rparr>)))
          - valueOf lat_12_9\<bar>
   \<and> updateLocation lat_12_9 lon_77_6 (initialState \<lparr>lat = zero64, lon = zero64\<rparr>)
       = (initialState \<lparr>lat = zero64, lon = zero64\<rparr>)
           \<lparr> coordinates := \<lparr>lat = lat_12_9, lon = lon_77_6\<rparr>, isManualSelection := True,
             geolocationEnabled := False, hasInitialLoad := True, error := None \<rparr>
   \<and> \<not> gt64 (abs64 (sub64 lat_12_9 lat_12_9000001)) tolerance
   \<and> \<not> gt64 (abs64 (sub64 lon_77_6 lon_77_6000001)) tolerance
   \<and> isFinite lat_12_9000001 \<and> isFinite lon_77_6 \<and> isFinite lon_77_6000001
   \<and> \<bar>valueOf lat_12_9 - valueOf lat_12_9000001\<bar> \<le> 1 / 1000000
   \<and> \<bar>valueOf lon_77_6 - valueOf lon_77_6000001\<bar> \<le> 1 / 1000000
   \<and> updateLocation lat_12_9000001 lon_77_6000001
        (updateLocation lat_12_9 lon_77_6 (initialState \<lparr>lat = zero64, lon = zero64\<rparr>))
       = updateLocation lat_12_9 lon_77_6 (initialState \<lparr>lat = zero64, lon = zero64\<rparr>)"
proof -
  let ?s0 = "initialState \<lparr>lat = zero64, lon = zero64\<rparr>"
  have c0: "lat (coordinates ?s0) = zero64" by (simp add: initialState_def)
  have g: "gt64 (abs64 (sub64 zero64 lat_12_9)) tolerance"
    by (simp add: zero64_def lat_12_9_def double_eval)
  have f: "isFinite zero64" "isFinite lat_12_9" "isFinite lat_12_9000001"
    "isFinite lon_77_6" "isFinite lon_77_6000001"
    by (simp_all add: isFinite_def zero64_def lat_12_9_def lat_12_9000001_def lon_77_6_def
        lon_77_6000001_def)
  have b: "1 / 1000000 + 2 powi (- 72) \<le> \<bar>valueOf zero64 - valueOf lat_12_9\<bar>"
    by (simp add: valueOf_def zero64_def lat_12_9_def)
  have n1: "\<not> gt64 (abs64 (sub64 lat_12_9 lat_12_9000001)) tolerance"
    by (simp add: lat_12_9_def lat_12_9000001_def double_eval)
  have n2: "\<not> gt64 (abs64 (sub64 lon_77_6 lon_77_6000001)) tolerance"
    by (simp add: lon_77_6_def lon_77_6000001_def double_eval)
  have w1: "\<bar>valueOf lat_12_9 - valueOf lat_12_9000001\<bar> \<le> 1 / 1000000"
    by (simp add: valueOf_def lat_12_9_def lat_12_9000001_def)
  have w2: "\<bar>valueOf lon_77_6 - valueOf lon_77_6000001\<bar> \<le> 1 / 1000000"
    by (simp add: valueOf_def lon_77_6_def lon_77_6000001_def)
  have u: "updateLocation lat_12_9 lon_77_6 ?s0 =
      ?s0\<lparr> coordinates := \<lparr>lat = lat_12_9, lon = lon_77_6\<rparr>, isManualSelection := True,
           geolocationEnabled := False, hasInitialLoad := True, error := None \<rparr>"
    using C8_updateLocation [of ?s0 lat_12_9 lon_77_6] g by (simp add: c0)
  have k: "updateLocation lat_12_9000001 lon_77_6000001 (updateLocation lat_12_9 lon_77_6 ?s0)
      = updateLocation lat_12_9 lon_77_6 ?s0"
    using C8_updateLocation [of "updateLocation lat_12_9 lon_77_6 ?s0"
        lat_12_9000001 lon_77_6000001] n1 n2
    by (simp add: u)
  show ?thesis
    using g f b n1 n2 w1 w2 u k by (simp add: c0)
qed

text \<open>
  Claim C10: \<^verbatim>\<open>handleLocationPermission(allow)\<close> sets \<open>hasInitialLoad\<close>, whatever \<open>allow\<close>
  and the state before are.
\<close>

theorem C10_handleLocationPermission_hasInitialLoad:
  "hasInitialLoad (handleLocationPermission dc allow s) = True"
  by (simp add: handleLocationPermission_def)

section \<open>The data access layer: what every run preserves\<close>

lemma run_snoc: "run (evs @ [e]) = step (run evs) e"
  by (simp add: run_def)

lemma run_Nil: "run [] = emptyApi"
  by (simp add: run_def)

lemma allocated_empty: "allocated emptyApi"
  by (simp add: allocated_def emptyApi_def)

lemma allocated_fetchWeather:
  "allocated s \<Longrightarrow> allocated (snd (fetchWeatherData la lo now s))"
  by (fastforce simp: allocated_def fetchWeatherData_def Let_def split: option.splits)

lemma allocated_searchCities:
  "allocated s \<Longrightarrow> allocated (snd (searchCities q now s))"
  by (fastforce simp: allocated_def searchCities_def Let_def split: option.splits)

lemma allocated_settleWeather:
  "allocated s \<Longrightarrow> allocated (settleWeather p out now s)"
  by (auto simp: allocated_def settleWeather_def Let_def distinct_map_filter
      split: option.splits sum.splits)

lemma allocated_settleCity:
  "allocated s \<Longrightarrow> allocated (settleCity p out now s)"
  by (auto simp: allocated_def settleCity_def Let_def split: option.splits sum.splits)

lemma allocated_step: "allocated s \<Longrightarrow> allocated (step s e)"
  by (cases e)
     (simp_all add: allocated_fetchWeather allocated_searchCities allocated_settleWeather
        allocated_settleCity, simp_all add: allocated_def clearCache_def clearCacheByPattern_def)

lemma allocated_run: "allocated (run evs)"
  by (induction evs rule: rev_induct) (simp_all add: run_Nil run_snoc allocated_empty allocated_step)


lemma coalesced_empty: "coalesced emptyApi"
  by (simp add: coalesced_def emptyApi_def)

lemma coalesced_fetchWeather:
  assumes "allocated s" and "coalesced s"
  shows "coalesced (snd (fetchWeatherData la lo now s))"
proof (cases "cacheHit (weatherCache s (weatherKey la lo)) now = None
              \<and> pendingWeatherRequests s (weatherKey la lo) = None")
  case False
  then have "snd (fetchWeatherData la lo now s) = s"
    by (auto simp: fetchWeatherData_def Let_def split: option.splits)
  then show ?thesis using assms by simp
next
  case True
  let ?k = "weatherKey la lo" and ?n = "nextPromise s"
  have eq: "snd (fetchWeatherData la lo now s) =
      s\<lparr> weatherPromises := (weatherPromises s)(?n \<mapsto> Pending),
         weatherInFlight := weatherInFlight s @ [(?n, ?k)],
         pendingWeatherRequests := (pendingWeatherRequests s)(?k \<mapsto> ?n),
         nextPromise := Suc ?n \<rparr>"
    using True by (simp add: fetchWeatherData_def Let_def)
  have old: "\<And>t. t \<in> set (weatherInFlight s) \<Longrightarrow> snd t \<noteq> ?k \<and> fst t \<noteq> ?n"
    using assms True by (auto simp: coalesced_def allocated_def)
  have lt: "\<And>k p. pendingWeatherRequests s k = Some p \<Longrightarrow> p \<noteq> ?n"
    using assms(2) by (fastforce simp: coalesced_def)
  have nocache: "weatherCache s ?k = None"
  proof (cases "weatherCache s ?k")
    case (Some a)
    obtain d ts where a: "a = (d, ts)" by (cases a)
    from assms(2) Some a
    have "Option.bind (pendingWeatherRequests s ?k) (weatherPromises s) = Some (Fulfilled d)"
      unfolding coalesced_def by blast
    with True show ?thesis by simp
  qed simp
  let ?s' = "s\<lparr> weatherPromises := (weatherPromises s)(?n \<mapsto> Pending),
         weatherInFlight := weatherInFlight s @ [(?n, ?k)],
         pendingWeatherRequests := (pendingWeatherRequests s)(?k \<mapsto> ?n),
         nextPromise := Suc ?n \<rparr>"
  have tracked: "pendingWeatherRequests ?s' (snd t) = Some (fst t)
                 \<and> weatherPromises ?s' (fst t) = Some Pending"
    if "t \<in> set (weatherInFlight ?s')" for t
  proof (cases "t = (?n, ?k)")
    case True
    then show ?thesis by simp
  next
    case False
    with that have t: "t \<in> set (weatherInFlight s)" by simp
    then have "pendingWeatherRequests s (snd t) = Some (fst t)"
      and "weatherPromises s (fst t) = Some Pending"
      using assms(2) by (simp_all add: coalesced_def)
    with old[OF t] show ?thesis by simp
  qed
  have bound: "p < nextPromise ?s'" if "pendingWeatherRequests ?s' k = Some p" for k p
  proof (cases "k = ?k")
    case True
    with that show ?thesis by simp
  next
    case False
    with that have "pendingWeatherRequests s k = Some p" by simp
    then have "p < ?n" using assms(2) by (simp add: coalesced_def)
    then show ?thesis by simp
  qed
  have settled: "Option.bind (pendingWeatherRequests ?s' k) (weatherPromises ?s') = Some (Fulfilled d)"
    if "weatherCache ?s' k = Some (d, ts)" for k d ts
  proof -
    from that have c: "weatherCache s k = Some (d, ts)" by simp
    with nocache have k: "k \<noteq> ?k" by auto
    from c assms(2)
    have "Option.bind (pendingWeatherRequests s k) (weatherPromises s) = Some (Fulfilled d)"
      unfolding coalesced_def by blast
    then obtain p where p: "pendingWeatherRequests s k = Some p"
      and f: "weatherPromises s p = Some (Fulfilled d)"
      by (auto simp: bind_eq_Some_conv)
    from lt[OF p] k p f show ?thesis by simp
  qed
  show ?thesis
    unfolding eq coalesced_def using tracked bound settled by blast
qed

lemma coalesced_searchCities:
  "coalesced s \<Longrightarrow> coalesced (snd (searchCities q now s))"
  by (auto simp: coalesced_def searchCities_def Let_def less_Suc_eq split: option.splits)

lemma coalesced_settleCity:
  "coalesced s \<Longrightarrow> coalesced (settleCity p out now s)"
  by (auto simp: coalesced_def settleCity_def Let_def split: option.splits sum.splits)

lemma coalesced_clearCacheByPattern:
  "coalesced s \<Longrightarrow> coalesced (clearCacheByPattern pat s)"
  by (auto simp: coalesced_def clearCacheByPattern_def)


lemma coalesced_settleWeather:
  assumes "coalesced s"
  shows "coalesced (settleWeather p out now s)"
proof (cases "map_of (weatherInFlight s) p")
  case None
  then show ?thesis using assms by (simp add: settleWeather_def)
next
  case (Some k)
  let ?rest = "filter (\<lambda>t. fst t \<noteq> p) (weatherInFlight s)"
  have mem: "(p, k) \<in> set (weatherInFlight s)"
    using Some by (rule map_of_SomeD)
  have tr: "pendingWeatherRequests s (snd t) = Some (fst t)"
    and pe: "weatherPromises s (fst t) = Some Pending"
    if "t \<in> set (weatherInFlight s)" for t
    using assms that by (simp_all add: coalesced_def)
  have pk: "pendingWeatherRequests s k = Some p" and pp: "weatherPromises s p = Some Pending"
    using tr[OF mem] pe[OF mem] by simp_all
  have bd: "q < nextPromise s" if "pendingWeatherRequests s k' = Some q" for k' q
    using assms that unfolding coalesced_def by blast
  have st: "\<exists>q. pendingWeatherRequests s k' = Some q \<and> weatherPromises s q = Some (Fulfilled d)"
    if "weatherCache s k' = Some (d, ts)" for k' d ts
  proof -
    from assms that
    have "Option.bind (pendingWeatherRequests s k') (weatherPromises s) = Some (Fulfilled d)"
      unfolding coalesced_def by blast
    then show ?thesis by (auto simp: bind_eq_Some_conv)
  qed
  have rest: "t \<in> set (weatherInFlight s) \<and> fst t \<noteq> p \<and> snd t \<noteq> k" if "t \<in> set ?rest" for t
  proof -
    from that have t: "t \<in> set (weatherInFlight s)" and ne: "fst t \<noteq> p" by simp_all
    have "snd t \<noteq> k"
    proof
      assume "snd t = k"
      with tr[OF t] pk ne show False by simp
    qed
    with t ne show ?thesis by simp
  qed
  show ?thesis
  proof (cases out)
    case (Inr r)
    obtain cw fc ap where r: "r = (cw, fc, ap)" by (cases r)
    let ?data = "\<lparr> currentWeather = cw, forecast = fc, airPollution = ap \<rparr>"
    let ?s' = "s\<lparr> weatherInFlight := ?rest,
                   weatherCache := (weatherCache s)(k \<mapsto> (?data, now)),
                   weatherPromises := (weatherPromises s)(p \<mapsto> Fulfilled ?data) \<rparr>"
    have eq: "settleWeather p out now s = ?s'"
      using Some Inr r by (simp add: settleWeather_def Let_def)
    have tracked: "pendingWeatherRequests ?s' (snd t) = Some (fst t)
                   \<and> weatherPromises ?s' (fst t) = Some Pending"
      if "t \<in> set (weatherInFlight ?s')" for t
    proof -
      from that have "t \<in> set ?rest" by simp
      from rest[OF this] tr pe show ?thesis by simp
    qed
    have bound: "q < nextPromise ?s'" if "pendingWeatherRequests ?s' k' = Some q" for k' q
      using that bd by simp
    have settled:
      "Option.bind (pendingWeatherRequests ?s' k') (weatherPromises ?s') = Some (Fulfilled d)"
      if "weatherCache ?s' k' = Some (d, ts)" for k' d ts
    proof (cases "k' = k")
      case True
      with that pk show ?thesis by simp
    next
      case False
      with that have "weatherCache s k' = Some (d, ts)" by simp
      from st[OF this] obtain q where q: "pendingWeatherRequests s k' = Some q"
        and f: "weatherPromises s q = Some (Fulfilled d)" by blast
      from f pp have "q \<noteq> p" by auto
      with q f show ?thesis by simp
    qed
    show ?thesis unfolding eq coalesced_def using tracked bound settled by blast
  next
    case (Inl e)
    let ?s' = "s\<lparr> weatherInFlight := ?rest,
                   weatherPromises := (weatherPromises s)(p \<mapsto> Rejected e),
                   pendingWeatherRequests := (pendingWeatherRequests s)(k := None) \<rparr>"
    have eq: "settleWeather p out now s = ?s'"
      using Some Inl by (simp add: settleWeather_def Let_def)
    have tracked: "pendingWeatherRequests ?s' (snd t) = Some (fst t)
                   \<and> weatherPromises ?s' (fst t) = Some Pending"
      if "t \<in> set (weatherInFlight ?s')" for t
    proof -
      from that have "t \<in> set ?rest" by simp
      from rest[OF this] tr pe show ?thesis by simp
    qed
    have bound: "q < nextPromise ?s'" if "pendingWeatherRequests ?s' k' = Some q" for k' q
    proof -
      from that have "pendingWeatherRequests s k' = Some q"
        by (cases "k' = k") simp_all
      then show ?thesis using bd by simp
    qed
    have settled:
      "Option.bind (pendingWeatherRequests ?s' k') (weatherPromises ?s') = Some (Fulfilled d)"
      if "weatherCache ?s' k' = Some (d, ts)" for k' d ts
    proof -
      from that have "weatherCache s k' = Some (d, ts)" by simp
      from st[OF this] obtain q where q: "pendingWeatherRequests s k' = Some q"
        and f: "weatherPromises s q = Some (Fulfilled d)" by blast
      from f pp have qp: "q \<noteq> p" by auto
      with q pk have "k' \<noteq> k" by auto
      with q f qp show ?thesis by simp
    qed
    show ?thesis unfolding eq coalesced_def using tracked bound settled by blast
  qed
qed

lemma coalesced_step:
  "e \<noteq> ClearCache \<Longrightarrow> allocated s \<Longrightarrow> coalesced s \<Longrightarrow> coalesced (step s e)"
  by (cases e)
     (simp_all add: coalesced_fetchWeather coalesced_searchCities coalesced_settleWeather
        coalesced_settleCity coalesced_clearCacheByPattern)

lemma coalesced_run: "ClearCache \<notin> set evs \<Longrightarrow> coalesced (run evs)"
proof (induction evs rule: rev_induct)
  case Nil
  show ?case by (simp add: run_Nil coalesced_empty)
next
  case (snoc e evs)
  then have "e \<noteq> ClearCache" and "coalesced (run evs)" by auto
  then show ?case
    unfolding run_snoc by (intro coalesced_step allocated_run)
qed

lemma at_most_one_with_key:
  "distinct (map fst xs) \<Longrightarrow> \<forall>t\<in>set xs. snd t = k \<longrightarrow> fst t = p \<Longrightarrow>
   length (filter (\<lambda>t. snd t = k) xs) \<le> Suc 0"
proof (induction xs)
  case Nil
  then show ?case by simp
next
  case (Cons x xs)
  show ?case
  proof (cases "snd x = k")
    case False
    with Cons show ?thesis by simp
  next
    case True
    have "filter (\<lambda>t. snd t = k) xs = []"
    proof (rule ccontr)
      assume "filter (\<lambda>t. snd t = k) xs \<noteq> []"
      then obtain t where t: "t \<in> set xs" "snd t = k"
        by (auto simp: filter_empty_conv)
      with Cons.prems(2) True have "fst t = fst x" by simp
      with t(1) Cons.prems(1) show False by (auto simp: image_iff)
    qed
    with True show ?thesis by simp
  qed
qed

lemma in_flight_at_most_one:
  assumes "ClearCache \<notin> set evs"
  shows "inFlightFor (weatherInFlight (run evs)) key \<le> 1"
proof -
  have d: "distinct (map fst (weatherInFlight (run evs)))"
    using allocated_run[of evs] by (simp add: allocated_def)
  have "\<forall>t\<in>set (weatherInFlight (run evs)). snd t = key \<longrightarrow>
          fst t = the (pendingWeatherRequests (run evs) key)"
    using coalesced_run[OF assms] by (auto simp: coalesced_def)
  from at_most_one_with_key[OF d this] show ?thesis by (simp add: inFlightFor_def)
qed

lemma fetchWeatherData_Created:
  assumes "fetchWeatherData la lo now s = (Created p, s1)"
  shows "cacheHit (weatherCache s (weatherKey la lo)) now = None"
    and "pendingWeatherRequests s (weatherKey la lo) = None"
    and "p = nextPromise s"
    and "s1 = s\<lparr> weatherPromises := (weatherPromises s)(nextPromise s \<mapsto> Pending),
                 weatherInFlight := weatherInFlight s @ [(nextPromise s, weatherKey la lo)],
                 pendingWeatherRequests :=
                   (pendingWeatherRequests s)(weatherKey la lo \<mapsto> nextPromise s),
                 nextPromise := Suc (nextPromise s) \<rparr>"
  using assms by (auto simp: fetchWeatherData_def Let_def split: option.splits)

lemma fetchWeatherData_join:
  assumes "cacheHit (weatherCache s (weatherKey la lo)) now = None"
    and "pendingWeatherRequests s (weatherKey la lo) = Some q"
  shows "fetchWeatherData la lo now s = (Joined q, s)"
  using assms by (simp add: fetchWeatherData_def Let_def)

lemma cacheHit_SomeD: "cacheHit c now = Some d \<Longrightarrow> \<exists>ts. c = Some (d, ts)"
  by (auto simp: cacheHit_def split: option.splits if_splits)

lemma settleWeather_success:
  assumes "map_of (weatherInFlight s) p = Some k"
  shows "weatherPromises (settleWeather p (Inr (cw, fc, ap)) now s) p =
           Some (Fulfilled \<lparr>currentWeather = cw, forecast = fc, airPollution = ap\<rparr>)"
  using assms by (simp add: settleWeather_def Let_def)

lemma in_flight_lookup:
  assumes "allocated s" and "(p, k) \<in> set (weatherInFlight s)"
  shows "map_of (weatherInFlight s) p = Some k"
  using assms by (simp add: allocated_def)

lemma coalesced_in_flight_no_cache:
  assumes "coalesced s" and "(p, k) \<in> set (weatherInFlight s)"
  shows "weatherCache s k = None"
proof (cases "weatherCache s k")
  case (Some a)
  obtain d ts where "a = (d, ts)" by (cases a)
  with Some assms(1)
  have "Option.bind (pendingWeatherRequests s k) (weatherPromises s) = Some (Fulfilled d)"
    unfolding coalesced_def by blast
  moreover have "pendingWeatherRequests s k = Some p" "weatherPromises s p = Some Pending"
    using assms by (auto simp: coalesced_def)
  ultimately show ?thesis by simp
qed simp

lemma cached_key_never_fetched_again:
  assumes "ClearCache \<notin> set evs"
    and "weatherCache (run evs) (weatherKey la lo) = Some (d, ts)"
  shows "snd (fetchWeatherData la lo now (run evs)) = run evs"
proof -
  have "coalesced (run evs)" using assms(1) by (rule coalesced_run)
  with assms(2)
  have "Option.bind (pendingWeatherRequests (run evs) (weatherKey la lo))
          (weatherPromises (run evs)) = Some (Fulfilled d)"
    unfolding coalesced_def by blast
  then obtain q where "pendingWeatherRequests (run evs) (weatherKey la lo) = Some q"
    by (auto simp: bind_eq_Some_conv)
  then show ?thesis
    by (simp add: fetchWeatherData_def Let_def split: option.splits)
qed

text \<open>
  The kind \<^verbatim>\<open>handleError\<close> gives depends on the name and on the axios mark only: a rejection
  is \<open>Cancelled\<close> exactly when it is an \<^verbatim>\<open>Error\<close> named \<^verbatim>\<open>AbortError\<close>, and an axios
  error under any other name is a \<open>TransportFailure\<close>.
\<close>

lemma handleError_kind:
  "fst (handleError e) =
     (if instanceofError e \<and> errorName e = utf16 ''AbortError'' then Cancelled
      else if isAxiosError e then TransportFailure
      else Unexpected)"
  by (simp add: handleError_def Let_def)

text \<open>A successful settlement leaves both pending tables as they were, whatever the state.\<close>

lemma settleWeather_success_keeps_pending:
  "pendingWeatherRequests (settleWeather p (Inr r) now s) = pendingWeatherRequests s"
  by (cases r) (simp add: settleWeather_def Let_def split: option.splits prod.splits)

lemma settleCity_success_keeps_pending:
  "pendingCityRequests (settleCity p (Inr r) now s) = pendingCityRequests s"
  by (simp add: settleCity_def Let_def split: option.splits)

section \<open>The data access layer: settlement, expiry and coalescing\<close>

text \<open>
  Claim C1 says that a successful settlement removes the pending entry of the key. The
  code deletes the entry in the \<^verbatim>\<open>catch\<close> block only. After one successful
  \<^verbatim>\<open>fetchWeatherData(12.9, 77.6)\<close> the transaction is over and the promise is fulfilled, and
  the pending table still maps the key to that promise; the same holds for
  \<^verbatim>\<open>searchCities("Paris")\<close>.
\<close>

theorem C1_success_keeps_pending_entry:
  "pendingWeatherRequests
     (run [FetchWeather (utf16 ''12.9'') (utf16 ''77.6'') 0,
           SettleWeather 0 (Inr (utf16 ''{}'', utf16 ''{}'', utf16 ''{}'')) 100])
     (weatherKey (utf16 ''12.9'') (utf16 ''77.6'')) = Some 0
   \<and> weatherInFlight
     (run [FetchWeather (utf16 ''12.9'') (utf16 ''77.6'') 0,
           SettleWeather 0 (Inr (utf16 ''{}'', utf16 ''{}'', utf16 ''{}'')) 100]) = []
   \<and> weatherPromises
     (run [FetchWeather (utf16 ''12.9'') (utf16 ''77.6'') 0,
           SettleWeather 0 (Inr (utf16 ''{}'', utf16 ''{}'', utf16 ''{}'')) 100]) 0
     = Some (Fulfilled \<lparr>currentWeather = utf16 ''{}'', forecast = utf16 ''{}'',
                         airPollution = utf16 ''{}''\<rparr>)
   \<and> pendingCityRequests
     (run [SearchCities (utf16 ''Paris'') 0, SettleCity 0 (Inr []) 100])
     (cityKey (utf16 ''Paris'')) = Some 0
   \<and> cityInFlight (run [SearchCities (utf16 ''Paris'') 0, SettleCity 0 (Inr []) 100]) = []
   \<and> cityPromises (run [SearchCities (utf16 ''Paris'') 0, SettleCity 0 (Inr []) 100]) 0
     = Some (Fulfilled [])"
  by (simp add: run_def fetchWeatherData_def settleWeather_def searchCities_def settleCity_def
      emptyApi_def cacheHit_def Let_def trim_def isWhiteSpace_def utf16_def)

text \<open>
  Claim C2 says that a call at or after \<open>T + TTL\<close> issues a fresh network transaction. The
  cache test does treat the entry as absent then, but the pending entry left behind by the
  successful settlement is found next. With the cache entry written at \<open>T = 100\<close>, the call
  made at \<open>100 + CACHE_DURATION\<close> joins the old promise, changes nothing, puts no
  transaction in flight and is handed the value of the first fetch. The same holds for
  \<^verbatim>\<open>searchCities("Paris")\<close>. By \<open>cached_key_never_fetched_again\<close> this is so for every key
  and every later time, as long as \<^verbatim>\<open>clearCache()\<close> is not called.
\<close>

theorem C2_expired_entry_answered_by_old_promise:
  "weatherCache
     (run [FetchWeather (utf16 ''12.9'') (utf16 ''77.6'') 0,
           SettleWeather 0 (Inr (utf16 ''{}'', utf16 ''{}'', utf16 ''{}'')) 100])
     (weatherKey (utf16 ''12.9'') (utf16 ''77.6''))
     = Some (\<lparr>currentWeather = utf16 ''{}'', forecast = utf16 ''{}'',
               airPollution = utf16 ''{}''\<rparr>, 100)
   \<and> cacheHit
       (weatherCache
          (run [FetchWeather (utf16 ''12.9'') (utf16 ''77.6'') 0,
                SettleWeather 0 (Inr (utf16 ''{}'', utf16 ''{}'', utf16 ''{}'')) 100])
          (weatherKey (utf16 ''12.9'') (utf16 ''77.6'')))
       (100 + CACHE_DURATION) = None
   \<and> fetchWeatherData (utf16 ''12.9'') (utf16 ''77.6'') (100 + CACHE_DURATION)
       (run [FetchWeather (utf16 ''12.9'') (utf16 ''77.6'') 0,
             SettleWeather 0 (Inr (utf16 ''{}'', utf16 ''{}'', utf16 ''{}'')) 100])
     = (Joined 0,
        run [FetchWeather (utf16 ''12.9'') (utf16 ''77.6'') 0,
             SettleWeather 0 (Inr (utf16 ''{}'', utf16 ''{}'', utf16 ''{}'')) 100])
   \<and> weatherInFlight
     (run [FetchWeather (utf16 ''12.9'') (utf16 ''77.6'') 0,
           SettleWeather 0 (Inr (utf16 ''{}'', utf16 ''{}'', utf16 ''{}'')) 100]) = []
   \<and> delivered
       (weatherPromises
          (run [FetchWeather (utf16 ''12.9'') (utf16 ''77.6'') 0,
                SettleWeather 0 (Inr (utf16 ''{}'', utf16 ''{}'', utf16 ''{}'')) 100]))
       (Joined 0)
     = Some (Inr \<lparr>currentWeather = utf16 ''{}'', forecast = utf16 ''{}'',
                   airPollution = utf16 ''{}''\<rparr>)
   \<and> searchCities (utf16 ''Paris'') (100 + CACHE_DURATION)
       (run [SearchCities (utf16 ''Paris'') 0, SettleCity 0 (Inr []) 100])
     = (Joined 0, run [SearchCities (utf16 ''Paris'') 0, SettleCity 0 (Inr []) 100])
   \<and> cityInFlight (run [SearchCities (utf16 ''Paris'') 0, SettleCity 0 (Inr []) 100]) = []"
  by (simp add: run_def fetchWeatherData_def settleWeather_def searchCities_def settleCity_def
      emptyApi_def cacheHit_def Let_def CACHE_DURATION_def delivered_def trim_def
      isWhiteSpace_def utf16_def)

text \<open>
  Claim C3, as stated, fails: \<^verbatim>\<open>clearCache()\<close> empties the pending tables while a
  transaction is in flight, and the next call for the same coordinates issues a second one.
\<close>

theorem C3_clearCache_allows_second_transaction:
  "inFlightFor
     (weatherInFlight
        (run [FetchWeather (utf16 ''12.9'') (utf16 ''77.6'') 0, ClearCache,
              FetchWeather (utf16 ''12.9'') (utf16 ''77.6'') 1]))
     (weatherKey (utf16 ''12.9'') (utf16 ''77.6'')) = 2"
  by (simp add: run_def fetchWeatherData_def clearCache_def emptyApi_def cacheHit_def Let_def
      inFlightFor_def)

text \<open>
  Claim C3, amended: in every run in which \<^verbatim>\<open>clearCache()\<close> is not called (calls of
  \<^verbatim>\<open>fetchWeatherData\<close> and \<^verbatim>\<open>searchCities\<close>, settlements and \<^verbatim>\<open>clearCacheByPattern\<close> in any
  order),
  \<^item> at most one weather transaction is in flight for any cache key;
  \<^item> a call for coordinates whose key has the transaction of \<open>r\<close> in flight, at any time,
    is handed the promise \<open>r\<close> and changes nothing;
  \<^item> a call for coordinates whose key has a pending entry \<open>q\<close> changes nothing and issues
    no transaction: it is handed the promise \<open>q\<close> itself, or the cached value, which is
    then the value \<open>q\<close> was fulfilled with;
  \<^item> when a call creates the request \<open>p\<close>, a second call for the same coordinates is
    handed \<open>p\<close> and changes nothing, exactly one transaction is in flight for the key, and
    when \<open>p\<close> settles successfully both callers receive the same snapshot.
\<close>

theorem C3_single_flight_and_coalescing:
  assumes "ClearCache \<notin> set evs"
  shows "inFlightFor (weatherInFlight (run evs)) key \<le> 1
    \<and> ((r, weatherKey la lo) \<in> set (weatherInFlight (run evs)) \<longrightarrow>
         fetchWeatherData la lo t (run evs) = (Joined r, run evs))
    \<and> (pendingWeatherRequests (run evs) (weatherKey la lo) = Some q \<longrightarrow>
         snd (fetchWeatherData la lo t (run evs)) = run evs
         \<and> (fst (fetchWeatherData la lo t (run evs)) = Joined q
            \<or> (\<exists>d. fst (fetchWeatherData la lo t (run evs)) = Returned d
                   \<and> weatherPromises (run evs) q = Some (Fulfilled d))))
    \<and> (fetchWeatherData la lo t1 (run evs) = (Created p, s1) \<longrightarrow>
         fetchWeatherData la lo t2 s1 = (Joined p, s1)
         \<and> inFlightFor (weatherInFlight s1) (weatherKey la lo) = 1
         \<and> delivered (weatherPromises (settleWeather p (Inr (cw, fc, ap)) t3 s1)) (Created p)
             = Some (Inr \<lparr>currentWeather = cw, forecast = fc, airPollution = ap\<rparr>)
         \<and> delivered (weatherPromises (settleWeather p (Inr (cw, fc, ap)) t3 s1)) (Joined p)
             = Some (Inr \<lparr>currentWeather = cw, forecast = fc, airPollution = ap\<rparr>))"
proof (intro conjI impI)
  show "inFlightFor (weatherInFlight (run evs)) key \<le> 1"
    using assms by (rule in_flight_at_most_one)
next
  let ?s = "run evs" and ?k = "weatherKey la lo"
  assume r: "(r, ?k) \<in> set (weatherInFlight ?s)"
  have co: "coalesced ?s" using assms by (rule coalesced_run)
  have "weatherCache ?s ?k = None"
    using co r by (rule coalesced_in_flight_no_cache)
  then have "cacheHit (weatherCache ?s ?k) t = None"
    by (simp add: cacheHit_def)
  moreover have "pendingWeatherRequests ?s ?k = Some r"
    using co r by (auto simp: coalesced_def)
  ultimately show "fetchWeatherData la lo t ?s = (Joined r, ?s)"
    by (rule fetchWeatherData_join)
next
  let ?s = "run evs" and ?k = "weatherKey la lo"
  assume q: "pendingWeatherRequests ?s ?k = Some q"
  have co: "coalesced ?s" using assms by (rule coalesced_run)
  show "snd (fetchWeatherData la lo t ?s) = ?s"
    using q by (simp add: fetchWeatherData_def Let_def split: option.splits)
  show "fst (fetchWeatherData la lo t ?s) = Joined q
        \<or> (\<exists>d. fst (fetchWeatherData la lo t ?s) = Returned d
               \<and> weatherPromises ?s q = Some (Fulfilled d))"
  proof (cases "cacheHit (weatherCache ?s ?k) t")
    case None
    then show ?thesis using q by (simp add: fetchWeatherData_join)
  next
    case (Some d)
    from cacheHit_SomeD[OF Some] obtain ts
      where "weatherCache ?s ?k = Some (d, ts)" ..
    with co
    have "Option.bind (pendingWeatherRequests ?s ?k) (weatherPromises ?s) = Some (Fulfilled d)"
      unfolding coalesced_def by blast
    with q have f: "weatherPromises ?s q = Some (Fulfilled d)" by simp
    have r: "fst (fetchWeatherData la lo t ?s) = Returned d"
      using Some by (simp add: fetchWeatherData_def Let_def)
    from r f show ?thesis by (intro disjI2 exI[of _ d] conjI)
  qed
next
  let ?s = "run evs" and ?k = "weatherKey la lo"
  assume c: "fetchWeatherData la lo t1 ?s = (Created p, s1)"
  have s1: "s1 = run (evs @ [FetchWeather la lo t1])"
    using c by (simp add: run_snoc)
  have nc: "ClearCache \<notin> set (evs @ [FetchWeather la lo t1])"
    using assms by simp
  have co1: "coalesced s1" unfolding s1 using nc by (rule coalesced_run)
  have al1: "allocated s1" unfolding s1 by (rule allocated_run)
  note cr = fetchWeatherData_Created[OF c]
  have mem: "(p, ?k) \<in> set (weatherInFlight s1)"
    using cr(3,4) by simp
  have pend: "pendingWeatherRequests s1 ?k = Some p"
    using cr(3,4) by simp
  have "weatherCache s1 ?k = None"
    using co1 mem by (rule coalesced_in_flight_no_cache)
  then have miss: "cacheHit (weatherCache s1 ?k) t2 = None"
    by (simp add: cacheHit_def)
  show "fetchWeatherData la lo t2 s1 = (Joined p, s1)"
    using miss pend by (rule fetchWeatherData_join)
  have le: "inFlightFor (weatherInFlight s1) ?k \<le> 1"
    unfolding s1 using nc by (rule in_flight_at_most_one)
  have "filter (\<lambda>t. snd t = ?k) (weatherInFlight s1) \<noteq> []"
    using mem by (force simp: filter_empty_conv)
  then have "inFlightFor (weatherInFlight s1) ?k \<noteq> 0"
    by (simp add: inFlightFor_def)
  with le show "inFlightFor (weatherInFlight s1) ?k = 1" by simp
  have look: "map_of (weatherInFlight s1) p = Some ?k"
    using al1 mem by (rule in_flight_lookup)
  show "delivered (weatherPromises (settleWeather p (Inr (cw, fc, ap)) t3 s1)) (Created p)
          = Some (Inr \<lparr>currentWeather = cw, forecast = fc, airPollution = ap\<rparr>)"
    by (simp add: delivered_def settleWeather_success[OF look])
  show "delivered (weatherPromises (settleWeather p (Inr (cw, fc, ap)) t3 s1)) (Joined p)
          = Some (Inr \<lparr>currentWeather = cw, forecast = fc, airPollution = ap\<rparr>)"
    by (simp add: delivered_def settleWeather_success[OF look])
qed

theorem C3_single_flight_witness:
  "ClearCache \<notin> set [FetchWeather (utf16 ''12.9'') (utf16 ''77.6'') 0]
   \<and> inFlightFor (weatherInFlight (run [FetchWeather (utf16 ''12.9'') (utf16 ''77.6'') 0]))
        (weatherKey (utf16 ''12.9'') (utf16 ''77.6'')) \<le> 1
   \<and> (0, weatherKey (utf16 ''12.9'') (utf16 ''77.6''))
        \<in> set (weatherInFlight (run [FetchWeather (utf16 ''12.9'') (utf16 ''77.6'') 0]))
   \<and> fetchWeatherData (utf16 ''12.9'') (utf16 ''77.6'') 5
        (run [FetchWeather (utf16 ''12.9'') (utf16 ''77.6'') 0])
       = (Joined 0, run [FetchWeather (utf16 ''12.9'') (utf16 ''77.6'') 0])
   \<and> pendingWeatherRequests (run [FetchWeather (utf16 ''12.9'') (utf16 ''77.6'') 0])
        (weatherKey (utf16 ''12.9'') (utf16 ''77.6'')) = Some 0
   \<and> snd (fetchWeatherData (utf16 ''12.9'') (utf16 ''77.6'') 5
          (run [FetchWeather (utf16 ''12.9'') (utf16 ''77.6'') 0]))
       = run [FetchWeather (utf16 ''12.9'') (utf16 ''77.6'') 0]
   \<and> fst (fetchWeatherData (utf16 ''12.9'') (utf16 ''77.6'') 5
          (run [FetchWeather (utf16 ''12.9'') (utf16 ''77.6'') 0])) = Joined 0
   \<and> ClearCache \<notin> set []
   \<and> fetchWeatherData (utf16 ''12.9'') (utf16 ''77.6'') 0 (run [])
       = (Created 0, run [FetchWeather (utf16 ''12.9'') (utf16 ''77.6'') 0])
   \<and> inFlightFor (weatherInFlight (run [FetchWeather (utf16 ''12.9'') (utf16 ''77.6'') 0]))
        (weatherKey (utf16 ''12.9'') (utf16 ''77.6'')) = 1
   \<and> delivered
        (weatherPromises
           (settleWeather 0 (Inr (utf16 ''{}'', utf16 ''{}'', utf16 ''{}'')) 100
              (run [FetchWeather (utf16 ''12.9'') (utf16 ''77.6'') 0])))
        (Created 0)
       = Some (Inr \<lparr>currentWeather = utf16 ''{}'', forecast = utf16 ''{}'',
                     airPollution = utf16 ''{}''\<rparr>)
   \<and> delivered
        (weatherPromises
           (settleWeather 0 (Inr (utf16 ''{}'', utf16 ''{}'', utf16 ''{}'')) 100
              (run [FetchWeather (utf16 ''12.9'') (utf16 ''77.6'') 0])))
        (Joined 0)
       = Some (Inr \<lparr>currentWeather = utf16 ''{}'', forecast = utf16 ''{}'',
                     airPollution = utf16 ''{}''\<rparr>)"
proof -
  have c: "fetchWeatherData (utf16 ''12.9'') (utf16 ''77.6'') 0 (run [])
       = (Created 0, run [FetchWeather (utf16 ''12.9'') (utf16 ''77.6'') 0])"
    by (simp add: run_def fetchWeatherData_def emptyApi_def cacheHit_def Let_def)
  have p: "pendingWeatherRequests (run [FetchWeather (utf16 ''12.9'') (utf16 ''77.6'') 0])
        (weatherKey (utf16 ''12.9'') (utf16 ''77.6'')) = Some 0"
    by (simp add: run_def fetchWeatherData_def emptyApi_def cacheHit_def Let_def)
  have m: "(0, weatherKey (utf16 ''12.9'') (utf16 ''77.6''))
        \<in> set (weatherInFlight (run [FetchWeather (utf16 ''12.9'') (utf16 ''77.6'') 0]))"
    by (simp add: run_def fetchWeatherData_def emptyApi_def cacheHit_def Let_def)
  have n1: "ClearCache \<notin> set [FetchWeather (utf16 ''12.9'') (utf16 ''77.6'') 0]" by simp
  have n0: "ClearCache \<notin> set []" by simp
  show ?thesis
    using c p m n1 n0
      C3_single_flight_and_coalescing [OF n1,
        where key = "weatherKey (utf16 ''12.9'') (utf16 ''77.6'')"
          and la = "utf16 ''12.9''" and lo = "utf16 ''77.6''" and r = 0 and q = 0 and t = 5]
      C3_single_flight_and_coalescing [OF n0,
        where la = "utf16 ''12.9''" and lo = "utf16 ''77.6''" and ?t1.0 = 0 and p = 0
          and ?s1.0 = "run [FetchWeather (utf16 ''12.9'') (utf16 ''77.6'') 0]" and ?t2.0 = 5
          and cw = "utf16 ''{}''" and fc = "utf16 ''{}''" and ap = "utf16 ''{}''"
          and ?t3.0 = 100]
    by (simp add: run_def fetchWeatherData_def emptyApi_def cacheHit_def Let_def)
qed

text \<open>
  Claim C4 says that every waiter of a failed request receives the translated error. The
  caller that created the request does; a caller that joined through the pending table holds
  the request promise itself and receives the rejection as axios produced it. With two
  concurrent calls for \<open>(12.9, 77.6)\<close> and the provider answering 404, the first caller gets
  \<^verbatim>\<open>new Error("city not found")\<close> and the second the axios error, which is a different
  value; the pending entry is removed. The same holds for two concurrent
  \<^verbatim>\<open>searchCities("Paris")\<close>.
\<close>

theorem C4_joined_caller_receives_raw_error:
  "fst (fetchWeatherData (utf16 ''12.9'') (utf16 ''77.6'') 0 (run [])) = Created 0
   \<and> fst (fetchWeatherData (utf16 ''12.9'') (utf16 ''77.6'') 10
          (run [FetchWeather (utf16 ''12.9'') (utf16 ''77.6'') 0])) = Joined 0
   \<and> delivered
       (weatherPromises
          (run [FetchWeather (utf16 ''12.9'') (utf16 ''77.6'') 0,
                FetchWeather (utf16 ''12.9'') (utf16 ''77.6'') 10,
                SettleWeather 0 (Inl notFoundError) 500]))
       (Created 0)
     = Some (Inl (newError (utf16 ''city not found'')))
   \<and> delivered
       (weatherPromises
          (run [FetchWeather (utf16 ''12.9'') (utf16 ''77.6'') 0,
                FetchWeather (utf16 ''12.9'') (utf16 ''77.6'') 10,
                SettleWeather 0 (Inl notFoundError) 500]))
       (Joined 0)
     = Some (Inl notFoundError)
   \<and> handleError notFoundError = (TransportFailure, newError (utf16 ''city not found''))
   \<and> notFoundError \<noteq> newError (utf16 ''city not found'')
   \<and> pendingWeatherRequests
       (run [FetchWeather (utf16 ''12.9'') (utf16 ''77.6'') 0,
             FetchWeather (utf16 ''12.9'') (utf16 ''77.6'') 10,
             SettleWeather 0 (Inl notFoundError) 500])
       (weatherKey (utf16 ''12.9'') (utf16 ''77.6'')) = None
   \<and> fst (searchCities (utf16 ''Paris'') 10 (run [SearchCities (utf16 ''Paris'') 0]))
     = Joined 0
   \<and> delivered
       (cityPromises
          (run [SearchCities (utf16 ''Paris'') 0, SearchCities (utf16 ''Paris'') 10,
                SettleCity 0 (Inl notFoundError) 500]))
       (Created 0)
     = Some (Inl (newError (utf16 ''city not found'')))
   \<and> delivered
       (cityPromises
          (run [SearchCities (utf16 ''Paris'') 0, SearchCities (utf16 ''Paris'') 10,
                SettleCity 0 (Inl notFoundError) 500]))
       (Joined 0)
     = Some (Inl notFoundError)"
  by (simp add: run_def fetchWeatherData_def settleWeather_def searchCities_def settleCity_def
      emptyApi_def cacheHit_def Let_def delivered_def handleError_def notFoundError_def
      newError_def trim_def isWhiteSpace_def utf16_def)

text \<open>
  Claim C5 says that a fetch aborted through its cancellation signal ends as \<open>Cancelled\<close>,
  never as \<open>TransportFailure\<close>, and that the pending entry is removed so that the next call
  goes to the network. \<^verbatim>\<open>handleError\<close> looks for an \<^verbatim>\<open>Error\<close> named \<^verbatim>\<open>AbortError\<close>, the
  name the \<^verbatim>\<open>fetch\<close> API gives an abort, but the requests are made with axios, which rejects
  an aborted request with its \<^verbatim>\<open>CanceledError\<close>. That rejection fails the first test and
  passes \<^verbatim>\<open>axios.isAxiosError\<close>: the caller of \<^verbatim>\<open>fetchWeatherData(12.9, 77.6, signal)\<close>
  whose signal aborts while the request is in flight receives \<^verbatim>\<open>new Error("canceled")\<close>, a
  \<open>TransportFailure\<close>. The rest is as the claim says: the pending entry is removed and the
  next call creates a new request.
\<close>

theorem C5_abort_reported_as_transport_failure:
  "handleError canceledError = (TransportFailure, newError (utf16 ''canceled''))
   \<and> fst (handleError canceledError) \<noteq> Cancelled
   \<and> fst (fetchWeatherData (utf16 ''12.9'') (utf16 ''77.6'') 0 (run [])) = Created 0
   \<and> delivered
       (weatherPromises
          (run [FetchWeather (utf16 ''12.9'') (utf16 ''77.6'') 0,
                SettleWeather 0 (Inl canceledError) 50]))
       (Created 0)
     = Some (Inl (newError (utf16 ''canceled'')))
   \<and> pendingWeatherRequests
       (run [FetchWeather (utf16 ''12.9'') (utf16 ''77.6'') 0,
             SettleWeather 0 (Inl canceledError) 50])
       (weatherKey (utf16 ''12.9'') (utf16 ''77.6'')) = None
   \<and> fst (fetchWeatherData (utf16 ''12.9'') (utf16 ''77.6'') 60
          (run [FetchWeather (utf16 ''12.9'') (utf16 ''77.6'') 0,
                SettleWeather 0 (Inl canceledError) 50]))
     = Created 1"
  by (simp add: run_def fetchWeatherData_def settleWeather_def emptyApi_def cacheHit_def
      Let_def delivered_def handleError_def canceledError_def newError_def utf16_def)

text \<open>
  Claim C9: a query whose trimmed form has fewer than 3 code units is answered with the
  empty list at once, and the state (both caches, both pending tables, the promises and the
  transactions in flight) is the one before the call.
\<close>

theorem C9_search_floor:
  "length (trim query) < 3 \<Longrightarrow> searchCities query now s = (Returned [], s)"
  by (simp add: searchCities_def)

theorem C9_search_floor_witness:
  "length (trim (utf16 ''Pa'')) < 3
   \<and> searchCities (utf16 ''Pa'') 0 emptyApi = (Returned [], emptyApi)
   \<and> length (trim (utf16 '' Pa  '')) < 3
   \<and> searchCities (utf16 '' Pa  '') 0 (run [SearchCities (utf16 ''Paris'') 0])
       = (Returned [], run [SearchCities (utf16 ''Paris'') 0])"
  using C9_search_floor [of "utf16 ''Pa''" 0 emptyApi]
    C9_search_floor [of "utf16 '' Pa  ''" 0 "run [SearchCities (utf16 ''Paris'') 0]"]
  by (simp add: trim_def isWhiteSpace_def utf16_def)

end
